theory Spec2Isabelle
  imports Main
begin

section \<open>JavaScript values as produced by the YAML loader\<close>

text \<open>
  \<open>yaml.load\<close> returns plain JavaScript data. \<open>JObj kvs\<close> lists the own enumerable
  properties of a plain object in the order \<open>Object.keys\<close> enumerates them; a property
  is read with \<open>map_of\<close>. \<open>JNum n\<close> is the number whose value is the integer \<open>n\<close>
  (\<open>version: 2\<close> loads as \<open>JNum 2\<close>); fractional numbers and NaN are not represented.
\<close>

datatype jsval =
    JUndefined
  | JNull
  | JBool bool
  | JNum int
  | JStr string
  | JArr "jsval list"
  | JObj "(string \<times> jsval) list"

datatype error =
    TypeError
  | YAMLException
  | GitError
  | FsError
  | BedrockError
  | PineconeError

text \<open>Truthiness, as the operators \<open>&&\<close>, \<open>||\<close> and \<open>if\<close> test it.\<close>

fun truthy :: "jsval \<Rightarrow> bool" where
  "truthy JUndefined = False"
| "truthy JNull = False"
| "truthy (JBool b) = b"
| "truthy (JNum n) = (n \<noteq> 0)"
| "truthy (JStr s) = (s \<noteq> [])"
| "truthy (JArr xs) = True"
| "truthy (JObj kvs) = True"

text \<open>\<open>a || b\<close>.\<close>

definition js_or :: "jsval \<Rightarrow> jsval \<Rightarrow> jsval" where
  "js_or a b = (if truthy a then a else b)"

fun js_typeof :: "jsval \<Rightarrow> string" where
  "js_typeof JUndefined = ''undefined''"
| "js_typeof JNull = ''object''"
| "js_typeof (JBool b) = ''boolean''"
| "js_typeof (JNum n) = ''number''"
| "js_typeof (JStr s) = ''string''"
| "js_typeof (JArr xs) = ''object''"
| "js_typeof (JObj kvs) = ''object''"

fun nullish :: "jsval \<Rightarrow> bool" where
  "nullish JUndefined = True"
| "nullish JNull = True"
| "nullish v = False"

text \<open>Decimal digits of a natural number, for array indices and number-to-string.\<close>

fun digit_char :: "nat \<Rightarrow> char" where
  "digit_char n = char_of (48 + n)"

function string_of_nat :: "nat \<Rightarrow> string" where
  "string_of_nat n =
     (if n < 10 then [digit_char n] else string_of_nat (n div 10) @ [digit_char (n mod 10)])"
  by pat_completeness auto
termination
  by (relation "measure id") auto

definition string_of_int :: "int \<Rightarrow> string" where
  "string_of_int i = (if i < 0 then CHR ''-'' # string_of_nat (nat (- i)) else string_of_nat (nat i))"

text \<open>
  \<open>v.k\<close> and \<open>v[k]\<close> on a value that is neither \<open>undefined\<close> nor \<open>null\<close>: own
  properties of an object, index and \<open>length\<close> properties of an array or string,
  \<open>undefined\<close> otherwise. (None of the property names the program reads is a member
  of a built-in prototype.) On \<open>undefined\<close> and \<open>null\<close> the access throws; callers
  test \<open>nullish\<close> first and raise \<open>TypeError\<close>.
\<close>

fun js_prop :: "jsval \<Rightarrow> string \<Rightarrow> jsval" where
  "js_prop (JObj kvs) k = (case map_of kvs k of Some v \<Rightarrow> v | None \<Rightarrow> JUndefined)"
| "js_prop (JArr xs) k =
     (case map_of (zip (map string_of_nat [0..<length xs]) xs) k of
        Some v \<Rightarrow> v
      | None \<Rightarrow> if k = ''length'' then JNum (int (length xs)) else JUndefined)"
| "js_prop (JStr s) k =
     (case map_of (zip (map string_of_nat [0..<length s]) (map (\<lambda>c. JStr [c]) s)) k of
        Some v \<Rightarrow> v
      | None \<Rightarrow> if k = ''length'' then JNum (int (length s)) else JUndefined)"
| "js_prop v k = JUndefined"

text \<open>\<open>v?.k\<close>.\<close>

definition opt_prop :: "jsval \<Rightarrow> string \<Rightarrow> jsval" where
  "opt_prop v k = (if nullish v then JUndefined else js_prop v k)"

text \<open>\<open>Object.keys(v)\<close> for a value with \<open>typeof v === 'object'\<close> that is not \<open>null\<close>.\<close>

fun object_keys :: "jsval \<Rightarrow> string list" where
  "object_keys (JObj kvs) = map fst kvs"
| "object_keys (JArr xs) = map string_of_nat [0..<length xs]"
| "object_keys (JStr s) = map string_of_nat [0..<length s]"
| "object_keys v = []"

text \<open>
  A callback applied to each element in turn; the first exception a callback throws
  ends the traversal and propagates.
\<close>

fun map_result :: "('a \<Rightarrow> error + 'b) \<Rightarrow> 'a list \<Rightarrow> error + 'b list" where
  "map_result f [] = Inr []"
| "map_result f (x # xs) =
     (case f x of
        Inl e \<Rightarrow> Inl e
      | Inr y \<Rightarrow> (case map_result f xs of Inl e \<Rightarrow> Inl e | Inr ys \<Rightarrow> Inr (y # ys)))"

text \<open>\<open>v.map(f)\<close>: only an array has a \<open>map\<close> method; otherwise the call throws.\<close>

fun js_array_map :: "jsval \<Rightarrow> (jsval \<Rightarrow> error + 'b) \<Rightarrow> error + 'b list" where
  "js_array_map (JArr xs) f = map_result f xs"
| "js_array_map v f = Inl TypeError"

text \<open>
  The values \<open>for (const x of v)\<close> iterates over: the elements of an array, the
  characters of a string; anything else is not iterable.
\<close>

fun for_of :: "jsval \<Rightarrow> error + jsval list" where
  "for_of (JArr xs) = Inr xs"
| "for_of (JStr s) = Inr (map (\<lambda>c. JStr [c]) s)"
| "for_of v = Inl TypeError"

section \<open>The schema records\<close>

record column =
  col_name :: jsval
  col_type :: jsval
  col_description :: jsval

text \<open>
  A property that an object does not have reads as \<open>undefined\<close>: the records that
  \<open>parseYamlFile\<close> builds have \<open>full_description = JUndefined\<close>.
\<close>

record table_schema =
  table_name :: jsval
  description :: jsval
  columns :: "column list"
  full_description :: jsval

section \<open>tuva-parser.js: parseYamlFile\<close>

text \<open>The callback of \<open>model.columns.map\<close> in the branch \<open>data.version === 2\<close>.\<close>

definition shapeA_column :: "jsval \<Rightarrow> error + column" where
  "shapeA_column col =
     (if nullish col then Inl TypeError
      else Inr \<lparr> col_name = js_prop col ''name'',
                 col_type = js_or (js_prop col ''data_type'')
                              (js_or (js_prop col ''dataType'') (JStr ''TEXT'')),
                 col_description = js_or (js_prop col ''description'') (JStr '''') \<rparr>)"

text \<open>The body of \<open>for (const model of models)\<close>: the schemas it pushes.\<close>

definition shapeA_model :: "jsval \<Rightarrow> error + table_schema list" where
  "shapeA_model model =
     (if nullish model then Inl TypeError
      else if truthy (js_prop model ''name'') \<and> truthy (js_prop model ''columns'') then
        (case js_array_map (js_prop model ''columns'') shapeA_column of
           Inl e \<Rightarrow> Inl e
         | Inr cols \<Rightarrow>
             Inr [\<lparr> table_name = js_prop model ''name'',
                    description =
                      js_or (js_prop model ''description'')
                        (js_or (opt_prop (opt_prop (js_prop model ''docs'') ''meta'') ''description'')
                           (JStr '''')),
                    columns = cols,
                    full_description = JUndefined \<rparr>])
      else Inr [])"

text \<open>The callback of \<open>(data[key].columns || []).map\<close> in the generic branch.\<close>

definition shapeB_column :: "jsval \<Rightarrow> error + column" where
  "shapeB_column col =
     (if js_typeof col = ''string'' then
        Inr \<lparr> col_name = col, col_type = JStr ''TEXT'', col_description = JStr '''' \<rparr>
      else if nullish col then Inl TypeError
      else Inr \<lparr> col_name = js_prop col ''name'',
                 col_type = js_or (js_prop col ''type'')
                              (js_or (js_prop col ''data_type'') (JStr ''TEXT'')),
                 col_description = js_or (js_prop col ''description'') (JStr '''') \<rparr>)"

text \<open>The callback of \<open>Object.keys(data).forEach\<close>: the schemas it pushes for one key.\<close>

definition shapeB_entry :: "jsval \<Rightarrow> string \<Rightarrow> error + table_schema list" where
  "shapeB_entry data key =
     (let v = js_prop data key in
      if js_typeof v = ''object'' then
        (if nullish v then Inl TypeError
         else if truthy (js_prop v ''columns'') then
           (case js_array_map (js_or (js_prop v ''columns'') (JArr [])) shapeB_column of
              Inl e \<Rightarrow> Inl e
            | Inr cols \<Rightarrow>
                Inr [\<lparr> table_name = JStr key,
                       description = js_or (js_prop v ''description'') (JStr ''''),
                       columns = cols,
                       full_description = JUndefined \<rparr>])
         else Inr [])
      else Inr [])"

text \<open>
  The body of the \<open>try\<close> block after \<open>yaml.load\<close>: the list \<open>schemas\<close> it returns, or
  the exception that leaves the block.
\<close>

definition parse_document :: "jsval \<Rightarrow> error + table_schema list" where
  "parse_document data =
     (if truthy data \<and> js_typeof data = ''object'' then
        (if js_prop data ''version'' = JNum 2 then
           (case for_of (js_or (js_prop data ''models'') (JArr [])) of
              Inl e \<Rightarrow> Inl e
            | Inr models \<Rightarrow>
                (case map_result shapeA_model models of
                   Inl e \<Rightarrow> Inl e
                 | Inr pushed \<Rightarrow> Inr (concat pushed)))
         else
           (case map_result (shapeB_entry data) (object_keys data) of
              Inl e \<Rightarrow> Inl e
            | Inr pushed \<Rightarrow> Inr (concat pushed)))
      else Inr [])"

text \<open>
  What \<open>fs.readFileSync\<close> followed by \<open>yaml.load\<close> gives for a file: an exception,
  or the loaded document.
\<close>

datatype file_load = LoadError error | Loaded jsval

text \<open>\<open>console.warn\<close> and \<open>console.error\<close> calls of the parser.\<close>

datatype log_entry =
    ParseWarning string error
  | DocWarning string error
  | ModelsDirNotFound
  | ParseFailed error

text \<open>
  \<open>parseYamlFile(filePath)\<close>, with the file given as its path and what loading it
  gives. The \<open>catch\<close> clause turns every exception into a warning and an empty list.
\<close>

definition parseYamlFile :: "string \<times> file_load \<Rightarrow> log_entry list \<times> table_schema list" where
  "parseYamlFile file =
     (case snd file of
        LoadError e \<Rightarrow> ([ParseWarning (fst file) e], [])
      | Loaded data \<Rightarrow>
          (case parse_document data of
             Inl e \<Rightarrow> ([ParseWarning (fst file) e], [])
           | Inr schemas \<Rightarrow> ([], schemas)))"

section \<open>tuva-parser.js: findYamlFiles\<close>

text \<open>
  A directory listing as \<open>fs.readdirSync(dir, { withFileTypes: true })\<close> returns it:
  regular files (with what loading them gives), directories (with their own listing)
  and entries that are neither.
\<close>

datatype fs_item =
    FileItem string file_load
  | DirItem string "fs_item list"
  | OtherItem string

definition starts_with :: "string \<Rightarrow> string \<Rightarrow> bool" where
  "starts_with s p = (take (length p) s = p)"

definition ends_with :: "string \<Rightarrow> string \<Rightarrow> bool" where
  "ends_with s x = (length x \<le> length s \<and> drop (length s - length x) s = x)"

definition path_join :: "string \<Rightarrow> string \<Rightarrow> string" where
  "path_join dir entry = dir @ ''/'' @ entry"

text \<open>\<open>walkDir\<close>: the loop over the items of one directory, and its body.\<close>

fun walkDir :: "string \<Rightarrow> fs_item list \<Rightarrow> (string \<times> file_load) list"
  and walkItem :: "string \<Rightarrow> fs_item \<Rightarrow> (string \<times> file_load) list" where
  "walkDir currentPath [] = []"
| "walkDir currentPath (item # items) = walkItem currentPath item @ walkDir currentPath items"
| "walkItem currentPath (DirItem name sub) =
     (if \<not> starts_with name ''.'' \<and> name \<noteq> ''node_modules''
      then walkDir (path_join currentPath name) sub else [])"
| "walkItem currentPath (FileItem name content) =
     (if ends_with name ''.yml'' \<or> ends_with name ''.yaml''
      then [(path_join currentPath name, content)] else [])"
| "walkItem currentPath (OtherItem name) = []"

text \<open>\<open>findYamlFiles(dir)\<close>; the listing is \<open>None\<close> when \<open>dir\<close> does not exist.\<close>

definition findYamlFiles :: "string \<Rightarrow> fs_item list option \<Rightarrow> (string \<times> file_load) list" where
  "findYamlFiles dir listing = (case listing of None \<Rightarrow> [] | Some items \<Rightarrow> walkDir dir items)"

section \<open>String conversion\<close>

text \<open>\<open>xs.join(sep)\<close> on an array of strings.\<close>

fun js_join :: "string \<Rightarrow> string list \<Rightarrow> string" where
  "js_join sep [] = []"
| "js_join sep [x] = x"
| "js_join sep (x # y # ys) = x @ sep @ js_join sep (y # ys)"

text \<open>
  The conversion a template literal \<open>`${v}`\<close> and a property key \<open>o[v]\<close> apply to a
  value: a plain object gives \<open>[object Object]\<close>, an array the comma-joined conversion
  of its elements, with \<open>undefined\<close> and \<open>null\<close> elements as empty strings. The
  function is exact on strings, \<open>undefined\<close>, \<open>null\<close>, booleans, integers of magnitude
  below \<open>2^53\<close>, mappings without a key \<open>toString\<close> of their own, and arrays of
  such values. Outside that domain JavaScript differs: it throws a \<open>TypeError\<close> on a
  mapping whose own \<open>toString\<close> is not callable, and prints larger integers rounded
  or in exponent notation.
\<close>

fun js_to_string :: "jsval \<Rightarrow> string" where
  "js_to_string JUndefined = ''undefined''"
| "js_to_string JNull = ''null''"
| "js_to_string (JBool b) = (if b then ''true'' else ''false'')"
| "js_to_string (JNum n) = string_of_int n"
| "js_to_string (JStr s) = s"
| "js_to_string (JArr xs) =
     js_join '','' (map (\<lambda>v. if nullish v then [] else js_to_string v) xs)"
| "js_to_string (JObj kvs) = ''[object Object]''"

section \<open>tuva-parser.js: extractDocumentation and parseTuvaSchema\<close>

text \<open>
  The cloned repository as the parser sees it: whether \<open>cloneTuvaRepo\<close> throws, the
  listings of \<open>models\<close> and \<open>dbt_doc_blocks\<close> (\<open>None\<close> when the directory does not
  exist), and whether writing the output file throws.
\<close>

record repo =
  clone_result :: "error option"
  models_dir :: "fs_item list option"
  doc_blocks_dir :: "fs_item list option"
  write_result :: "error option"

definition REPO_DIR :: string where
  "REPO_DIR = ''tuva-repo''"

text \<open>
  The object \<open>documentation\<close> as a map from property key to value. The body of the
  loop over the documentation files: \<open>documentation[key] = data[key]\<close> for every key
  of a loaded object; a load error is a warning. A key that is only inherited from
  \<open>Object.prototype\<close> reads as a value without \<open>description\<close> and \<open>content\<close>, like a
  missing key; assigning to the key \<open>__proto__\<close> is not modelled.
\<close>

fun assign_keys :: "jsval \<Rightarrow> string list \<Rightarrow> (string \<rightharpoonup> jsval) \<Rightarrow> (string \<rightharpoonup> jsval)" where
  "assign_keys data [] documentation = documentation"
| "assign_keys data (key # keys) documentation =
     assign_keys data keys (documentation(key \<mapsto> js_prop data key))"

fun read_doc_files ::
  "(string \<times> file_load) list \<Rightarrow> log_entry list \<times> (string \<rightharpoonup> jsval) \<Rightarrow>
   log_entry list \<times> (string \<rightharpoonup> jsval)" where
  "read_doc_files [] acc = acc"
| "read_doc_files (file # files) (warnings, documentation) =
     (case snd file of
        LoadError e \<Rightarrow> read_doc_files files (warnings @ [DocWarning (fst file) e], documentation)
      | Loaded data \<Rightarrow>
          (if truthy data \<and> js_typeof data = ''object''
           then read_doc_files files (warnings, assign_keys data (object_keys data) documentation)
           else read_doc_files files (warnings, documentation)))"

definition extractDocumentation :: "repo \<Rightarrow> log_entry list \<times> (string \<rightharpoonup> jsval)" where
  "extractDocumentation r =
     (case doc_blocks_dir r of
        None \<Rightarrow> ([], Map.empty)
      | Some items \<Rightarrow>
          read_doc_files (findYamlFiles (path_join REPO_DIR ''dbt_doc_blocks'') (Some items))
            ([], Map.empty))"

text \<open>Step 3: the loop \<open>for (const file of yamlFiles)\<close> with its accumulator \<open>allSchemas\<close>.\<close>

fun parse_files ::
  "(string \<times> file_load) list \<Rightarrow> log_entry list \<times> table_schema list \<Rightarrow>
   log_entry list \<times> table_schema list" where
  "parse_files [] acc = acc"
| "parse_files (file # files) (warnings, allSchemas) =
     (case parseYamlFile file of
        (w, schemas) \<Rightarrow> parse_files files (warnings @ w, allSchemas @ schemas))"

text \<open>Step 5: the callback of \<open>allSchemas.map\<close>.\<close>

definition enrich :: "(string \<rightharpoonup> jsval) \<Rightarrow> table_schema \<Rightarrow> table_schema" where
  "enrich documentation schema =
     (let doc = js_or (case documentation (js_to_string (table_name schema)) of
                         None \<Rightarrow> JUndefined | Some v \<Rightarrow> v) (JObj [])
      in schema \<lparr> description :=
                    js_or (description schema)
                      (js_or (js_prop doc ''description'')
                         (js_or (js_prop doc ''content'') (JStr ''''))),
                  full_description := js_or (js_prop doc ''content'') (description schema) \<rparr>)"

text \<open>
  \<open>parseTuvaSchema()\<close>: the warnings and errors it logs, and either the exception it
  rethrows or its return value, where \<open>None\<close> is the bare \<open>return;\<close> (\<open>undefined\<close>) of the
  branch for a missing models directory.
\<close>

definition parseTuvaSchema :: "repo \<Rightarrow> log_entry list \<times> (error + table_schema list option)" where
  "parseTuvaSchema r =
     (case clone_result r of
        Some e \<Rightarrow> ([ParseFailed e], Inl e)
      | None \<Rightarrow>
          (case models_dir r of
             None \<Rightarrow> ([ModelsDirNotFound], Inr None)
           | Some items \<Rightarrow>
               (let yamlFiles = findYamlFiles (path_join REPO_DIR ''models'') (Some items);
                    parsed = parse_files yamlFiles ([], []);
                    docs = extractDocumentation r;
                    enrichedSchemas = map (enrich (snd docs)) (snd parsed)
                in case write_result r of
                     Some e \<Rightarrow> (fst parsed @ fst docs @ [ParseFailed e], Inl e)
                   | None \<Rightarrow> (fst parsed @ fst docs, Inr (Some enrichedSchemas)))))"

section \<open>setup-tuva.js: createSchemaText\<close>

definition column_text :: "column \<Rightarrow> string" where
  "column_text col =
     ''  - '' @ js_to_string (col_name col) @ '' ('' @ js_to_string (col_type col) @ ''): '' @
     js_to_string (js_or (col_description col) (JStr ''No description''))"

definition createSchemaText :: "table_schema \<Rightarrow> string" where
  "createSchemaText schema =
     (let columnsText = js_join [CHR 0x0A] (map column_text (columns schema))
      in js_to_string (table_name schema) @ [CHR 0x0A] @
         js_to_string (js_or (description schema) (JStr '''')) @ [CHR 0x0A] @
         ''Columns:'' @ [CHR 0x0A] @ columnsText)"

section \<open>setup-tuva.js: generateEmbedding and uploadToPinecone\<close>

text \<open>
  The record built for one schema. \<open>md_columns\<close> and \<open>md_schema\<close> hold the values
  that the program passes to \<open>JSON.stringify\<close>; the serialisation itself is not modelled.
\<close>

record metadata =
  md_table_name :: jsval
  md_description :: jsval
  md_columns :: "column list"
  md_schema :: table_schema

record 'v vector =
  vec_id :: jsval
  vec_values :: 'v
  vec_metadata :: metadata

text \<open>
  \<open>generateEmbedding(text)\<close>. The Bedrock request (send, decode, read \<open>embedding\<close>) is
  the parameter \<open>invoke\<close>; the \<open>catch\<close> clause logs the exception and rethrows it.
\<close>

definition generateEmbedding :: "(string \<Rightarrow> error + 'v) \<Rightarrow> string \<Rightarrow> error + 'v" where
  "generateEmbedding invoke text = (case invoke text of Inl e \<Rightarrow> Inl e | Inr embedding \<Rightarrow> Inr embedding)"

text \<open>The async callback of \<open>batch.map\<close>.\<close>

definition make_vector :: "(string \<Rightarrow> error + 'v) \<Rightarrow> table_schema \<Rightarrow> error + 'v vector" where
  "make_vector invoke schema =
     (let schemaText = createSchemaText schema
      in case generateEmbedding invoke schemaText of
           Inl e \<Rightarrow> Inl e
         | Inr embedding \<Rightarrow>
             Inr \<lparr> vec_id = table_name schema,
                   vec_values = embedding,
                   vec_metadata =
                     \<lparr> md_table_name = table_name schema,
                       md_description = js_or (description schema) (JStr ''''),
                       md_columns = columns schema,
                       md_schema = schema \<rparr> \<rparr>)"

text \<open>
  \<open>await Promise.all(promises)\<close>: the values of all promises in order, or a rejection as
  soon as one promise rejects. All requests of the batch have been issued by then; the
  model takes the leftmost rejection as the one that is thrown.
\<close>

definition promise_all :: "(error + 'a) list \<Rightarrow> error + 'a list" where
  "promise_all promises = map_result (\<lambda>p. p) promises"

text \<open>\<open>xs.slice(i, j)\<close> for \<open>0 \<le> i \<le> j\<close>.\<close>

definition js_slice :: "'a list \<Rightarrow> nat \<Rightarrow> nat \<Rightarrow> 'a list" where
  "js_slice xs i j = take (j - i) (drop i xs)"

definition batchSize :: nat where
  "batchSize = 100"

text \<open>
  What an indexing run does that is visible outside: bulk writes the store has
  accepted, pauses (in milliseconds), and the two progress messages that print the
  counter \<open>uploaded\<close>.
\<close>

datatype 'v event =
    Upsert "'v vector list"
  | Sleep nat
  | LogUploaded nat nat
  | LogAllUploaded nat

text \<open>
  The loop \<open>for (let i = 0; i < schemas.length; i += batchSize)\<close> from the state
  \<open>(i, uploaded)\<close>, and the two statements after it. The function has no \<open>return\<close>
  statement: on normal completion its promise resolves to \<open>undefined\<close>. \<open>upsert\<close> is
  \<open>index.upsert\<close>, giving the exception it throws, if any.
\<close>

function upload_loop ::
  "(string \<Rightarrow> error + 'v) \<Rightarrow> ('v vector list \<Rightarrow> error option) \<Rightarrow> table_schema list \<Rightarrow>
   nat \<Rightarrow> nat \<Rightarrow> 'v event list \<times> (error + jsval)" where
  "upload_loop invoke upsert schemas i uploaded =
     (if i < length schemas then
        (let batch = js_slice schemas i (i + batchSize)
         in case promise_all (map (make_vector invoke) batch) of
              Inl e \<Rightarrow> ([], Inl e)
            | Inr vectors \<Rightarrow>
                (case upsert vectors of
                   Some e \<Rightarrow> ([], Inl e)
                 | None \<Rightarrow>
                     (let uploaded' = uploaded + length batch;
                          delay = (if i + batchSize < length schemas then [Sleep 1000] else []);
                          rest = upload_loop invoke upsert schemas (i + batchSize) uploaded'
                      in ([Upsert vectors, LogUploaded uploaded' (length schemas)] @ delay @ fst rest,
                          snd rest))))
      else ([LogAllUploaded uploaded], Inr JUndefined))"
  by pat_completeness auto
termination
  by (relation "measure (\<lambda>(invoke, upsert, schemas, i, uploaded). length schemas - i)")
     (auto simp: batchSize_def)

definition uploadToPinecone ::
  "(string \<Rightarrow> error + 'v) \<Rightarrow> ('v vector list \<Rightarrow> error option) \<Rightarrow> table_schema list \<Rightarrow>
   'v event list \<times> (error + jsval)" where
  "uploadToPinecone invoke upsert schemas = upload_loop invoke upsert schemas 0 0"

section \<open>setup-tuva.js: initializeIndex\<close>

definition PINECONE_INDEX_NAME :: string where
  "PINECONE_INDEX_NAME = ''tuva-schemas''"

definition EMBEDDING_DIMENSIONS :: nat where
  "EMBEDDING_DIMENSIONS = 1536"

text \<open>
  The vector-store service. An index that \<open>createIndex\<close> has accepted is provisioned
  by the service on its own schedule: it answers queries and writes from the time
  \<open>ready_at\<close> on. \<open>now\<close> is the clock in milliseconds; \<open>provisioning_ms\<close> is how long the
  service takes to provision a new index. \<open>indexes = None\<close> is a \<open>listIndexes\<close> response
  without an \<open>indexes\<close> field.
\<close>

record index_info =
  idx_name :: string
  idx_dimension :: nat
  idx_metric :: string
  idx_cloud :: string
  idx_region :: string
  ready_at :: nat

record pinecone =
  listIndexes_result :: "error option"
  createIndex_result :: "error option"
  provisioning_ms :: nat
  indexes :: "index_info list option"
  now :: nat

definition queryable :: "pinecone \<Rightarrow> string \<Rightarrow> bool" where
  "queryable p name =
     (case indexes p of
        None \<Rightarrow> False
      | Some l \<Rightarrow> list_ex (\<lambda>idx. idx_name idx = name \<and> ready_at idx \<le> now p) l)"

text \<open>
  \<open>initializeIndex()\<close>: the service afterwards, and the exception rethrown or the
  handle returned (the handle is the index name).
\<close>

definition initializeIndex :: "pinecone \<Rightarrow> pinecone \<times> (error + string)" where
  "initializeIndex p =
     (case listIndexes_result p of
        Some e \<Rightarrow> (p, Inl e)
      | None \<Rightarrow>
          (let indexExists =
                 (case indexes p of
                    None \<Rightarrow> False
                  | Some l \<Rightarrow> list_ex (\<lambda>idx. idx_name idx = PINECONE_INDEX_NAME) l)
           in if indexExists then (p, Inr PINECONE_INDEX_NAME)
              else
                (case createIndex_result p of
                   Some e \<Rightarrow> (p, Inl e)
                 | None \<Rightarrow>
                     (let created =
                            \<lparr> idx_name = PINECONE_INDEX_NAME,
                              idx_dimension = EMBEDDING_DIMENSIONS,
                              idx_metric = ''cosine'',
                              idx_cloud = ''aws'',
                              idx_region = ''us-east-1'',
                              ready_at = now p + provisioning_ms p \<rparr>;
                          p1 = p \<lparr> indexes :=
                                    Some ((case indexes p of None \<Rightarrow> [] | Some l \<Rightarrow> l) @ [created]) \<rparr>;
                          p2 = p1 \<lparr> now := now p1 + 10000 \<rparr>
                      in (p2, Inr PINECONE_INDEX_NAME)))))"

section \<open>setup-tuva.js: setupTuva\<close>

text \<open>
  How \<open>setupTuva\<close> ends: it returns, or its \<open>catch\<close> clause calls \<open>process.exit(1)\<close>
  with the exception it caught.
\<close>

datatype outcome = Completed | Exited nat error

record 'v setup_run =
  parser_log :: "log_entry list"
  service :: pinecone
  index_events :: "'v event list"
  ending :: outcome

text \<open>
  \<open>setupTuva()\<close>. \<open>schemas.length\<close> on \<open>undefined\<close> throws a \<open>TypeError\<close>.
  \<open>upsert\<close> is the \<open>upsert\<close> method of the handle of the named index.
\<close>

definition setupTuva ::
  "repo \<Rightarrow> pinecone \<Rightarrow> (string \<Rightarrow> error + 'v) \<Rightarrow> (string \<Rightarrow> 'v vector list \<Rightarrow> error option) \<Rightarrow>
   'v setup_run" where
  "setupTuva r p invoke upsert =
     (case parseTuvaSchema r of
        (lg, Inl e) \<Rightarrow>
          \<lparr> parser_log = lg, service = p, index_events = [], ending = Exited 1 e \<rparr>
      | (lg, Inr None) \<Rightarrow>
          \<lparr> parser_log = lg, service = p, index_events = [], ending = Exited 1 TypeError \<rparr>
      | (lg, Inr (Some schemas)) \<Rightarrow>
          (case initializeIndex p of
             (p', Inl e) \<Rightarrow>
               \<lparr> parser_log = lg, service = p', index_events = [], ending = Exited 1 e \<rparr>
           | (p', Inr index) \<Rightarrow>
               (case uploadToPinecone invoke (upsert index) schemas of
                  (evs, Inl e) \<Rightarrow>
                    \<lparr> parser_log = lg, service = p', index_events = evs, ending = Exited 1 e \<rparr>
                | (evs, Inr v) \<Rightarrow>
                    \<lparr> parser_log = lg, service = p', index_events = evs, ending = Completed \<rparr>)))"

section \<open>Observations, well-formedness predicates and example inputs\<close>

text \<open>\<open>s.split('\n')\<close>: a string cut at its line feeds.\<close>

fun split_lines :: "string \<Rightarrow> string list" where
  "split_lines [] = [[]]"
| "split_lines (c # cs) =
     (if c = CHR 0x0A then [] # split_lines cs
      else (case split_lines cs of [] \<Rightarrow> [[c]] | l # ls \<Rightarrow> (c # l) # ls))"

text \<open>Plain objects (YAML mappings) and arrays (YAML sequences).\<close>

fun is_mapping :: "jsval \<Rightarrow> bool" where
  "is_mapping (JObj kvs) = True"
| "is_mapping v = False"

fun array_elems :: "jsval \<Rightarrow> jsval list" where
  "array_elems (JArr xs) = xs"
| "array_elems v = []"

fun is_array :: "jsval \<Rightarrow> bool" where
  "is_array (JArr xs) = True"
| "is_array v = False"

text \<open>
  A valid Shape-A document, as dbt writes it: a mapping with \<open>version: 2\<close> whose
  \<open>models\<close> is a sequence of mappings; a model has no \<open>columns\<close> key, or a sequence of
  mappings under it.
\<close>

definition valid_model :: "jsval \<Rightarrow> bool" where
  "valid_model m =
     (is_mapping m \<and>
      (js_prop m ''columns'' = JUndefined \<or>
       is_array (js_prop m ''columns'') \<and> list_all is_mapping (array_elems (js_prop m ''columns''))))"

definition valid_shapeA :: "jsval \<Rightarrow> bool" where
  "valid_shapeA data =
     (is_mapping data \<and> js_prop data ''version'' = JNum 2 \<and>
      is_array (js_prop data ''models'') \<and>
      list_all valid_model (array_elems (js_prop data ''models'')))"

text \<open>
  A model entry with a name and a column list, as the program tests it; and what the
  program builds from a column entry and from a model entry when nothing throws.
\<close>

definition has_name_and_columns :: "jsval \<Rightarrow> bool" where
  "has_name_and_columns m = (truthy (js_prop m ''name'') \<and> truthy (js_prop m ''columns''))"

definition columnA :: "jsval \<Rightarrow> column" where
  "columnA col =
     \<lparr> col_name = js_prop col ''name'',
       col_type = js_or (js_prop col ''data_type'') (js_or (js_prop col ''dataType'') (JStr ''TEXT'')),
       col_description = js_or (js_prop col ''description'') (JStr '''') \<rparr>"

definition modelA :: "jsval \<Rightarrow> table_schema" where
  "modelA model =
     \<lparr> table_name = js_prop model ''name'',
       description =
         js_or (js_prop model ''description'')
           (js_or (opt_prop (opt_prop (js_prop model ''docs'') ''meta'') ''description'') (JStr '''')),
       columns = map columnA (array_elems (js_prop model ''columns'')),
       full_description = JUndefined \<rparr>"

text \<open>
  A value of a Shape-B document that has a column list, as the program tests it. A valid
  Shape-B document: a mapping with distinct keys that is not marked \<open>version: 2\<close>, whose
  values are not \<open>null\<close> and whose column lists are sequences of bare strings and mappings.
\<close>

definition has_columns :: "jsval \<Rightarrow> bool" where
  "has_columns v = (js_typeof v = ''object'' \<and> v \<noteq> JNull \<and> truthy (js_prop v ''columns''))"

definition valid_entryB :: "jsval \<Rightarrow> bool" where
  "valid_entryB v =
     (v \<noteq> JNull \<and>
      (has_columns v \<longrightarrow>
         is_array (js_prop v ''columns'') \<and>
         list_all (\<lambda>c. js_typeof c = ''string'' \<or> is_mapping c) (array_elems (js_prop v ''columns''))))"

definition valid_shapeB :: "(string \<times> jsval) list \<Rightarrow> bool" where
  "valid_shapeB kvs =
     (distinct (map fst kvs) \<and> js_prop (JObj kvs) ''version'' \<noteq> JNum 2 \<and>
      list_all (\<lambda>kv. valid_entryB (snd kv)) kvs)"

text \<open>What the program builds from a Shape-B column entry and value when nothing throws.\<close>

definition columnB :: "jsval \<Rightarrow> column" where
  "columnB col =
     (if js_typeof col = ''string'' then
        \<lparr> col_name = col, col_type = JStr ''TEXT'', col_description = JStr '''' \<rparr>
      else
        \<lparr> col_name = js_prop col ''name'',
          col_type = js_or (js_prop col ''type'') (js_or (js_prop col ''data_type'') (JStr ''TEXT'')),
          col_description = js_or (js_prop col ''description'') (JStr '''') \<rparr>)"

definition entryB :: "string \<times> jsval \<Rightarrow> table_schema" where
  "entryB kv =
     \<lparr> table_name = JStr (fst kv),
       description = js_or (js_prop (snd kv) ''description'') (JStr ''''),
       columns = map columnB (array_elems (js_prop (snd kv) ''columns'')),
       full_description = JUndefined \<rparr>"

text \<open>Example inputs.\<close>

definition example_schema :: table_schema where
  "example_schema =
     \<lparr> table_name = JStr ''core__patient'',
       description = JStr ''One row per patient'',
       columns =
         [\<lparr> col_name = JStr ''id'', col_type = JStr ''TEXT'', col_description = JStr ''Patient key'' \<rparr>,
          \<lparr> col_name = JStr ''state'', col_type = JStr ''TEXT'', col_description = JStr '''' \<rparr>,
          \<lparr> col_name = JStr ''age'', col_type = JStr ''INT'', col_description = JUndefined \<rparr>],
       full_description = JUndefined \<rparr>"

definition example_shapeA :: jsval where
  "example_shapeA =
     JObj [(''version'', JNum 2),
           (''models'',
            JArr [JObj [(''name'', JStr ''core__patient''),
                        (''columns'',
                         JArr [JObj [(''name'', JStr ''id''), (''data_type'', JStr ''VARCHAR'')],
                               JObj [(''name'', JStr ''age''), (''dataType'', JStr ''INT'')],
                               JObj [(''name'', JStr ''state'')]])],
                  JObj [(''name'', JStr ''unused'')],
                  JObj [(''name'', JStr ''core__claim''),
                        (''columns'', JArr [JObj [(''name'', JStr ''claim_id'')]])]])]"

definition example_shapeB :: "(string \<times> jsval) list" where
  "example_shapeB =
     [(''core__patient'',
       JObj [(''columns'', JArr [JStr ''id'', JObj [(''name'', JStr ''age''), (''type'', JStr ''INT'')],
                                 JObj [(''name'', JStr ''state'')]])]),
      (''owner'', JStr ''tuva'')]"

text \<open>The records that the files of a list contribute, file by file.\<close>

definition file_records :: "(string \<times> file_load) list \<Rightarrow> table_schema list" where
  "file_records files = concat (map (\<lambda>file. snd (parseYamlFile file)) files)"

definition file_warnings :: "(string \<times> file_load) list \<Rightarrow> log_entry list" where
  "file_warnings files = concat (map (\<lambda>file. fst (parseYamlFile file)) files)"


text \<open>Two source files that define the same table.\<close>

definition duplicate_repo :: repo where
  "duplicate_repo =
     \<lparr> clone_result = None,
       models_dir =
         Some [FileItem ''a.yml'' (Loaded (JObj [(''core__patient'', JObj [(''columns'', JArr [JStr ''id''])])])),
               FileItem ''b.yml'' (Loaded (JObj [(''core__patient'', JObj [(''columns'', JArr [JStr ''person_id''])])]))],
       doc_blocks_dir = None,
       write_result = None \<rparr>"


text \<open>A clone without a \<open>models\<close> directory.\<close>

definition no_models_repo :: repo where
  "no_models_repo =
     \<lparr> clone_result = None, models_dir = None, doc_blocks_dir = None, write_result = None \<rparr>"

definition fresh_service :: pinecone where
  "fresh_service =
     \<lparr> listIndexes_result = None, createIndex_result = None, provisioning_ms = 20000,
       indexes = Some [], now = 0 \<rparr>"

text \<open>The bulk writes of an indexing run, in order, and its writes and pauses.\<close>

fun upserted :: "'v event list \<Rightarrow> 'v vector list list" where
  "upserted [] = []"
| "upserted (Upsert b # es) = b # upserted es"
| "upserted (e # es) = upserted es"

fun is_store_event :: "'v event \<Rightarrow> bool" where
  "is_store_event (Upsert b) = True"
| "is_store_event (Sleep ms) = True"
| "is_store_event e = False"

text \<open>A list cut into consecutive pieces of \<open>n\<close> elements, the last one possibly shorter.\<close>

function batches :: "nat \<Rightarrow> 'a list \<Rightarrow> 'a list list" where
  "batches n xs = (if n = 0 \<or> xs = [] then [] else take n xs # batches n (drop n xs))"
  by pat_completeness auto
termination
  by (relation "measure (\<lambda>(n, xs). length xs)") auto

fun intersperse :: "'a \<Rightarrow> 'a list \<Rightarrow> 'a list" where
  "intersperse sep [] = []"
| "intersperse sep [x] = [x]"
| "intersperse sep (x # y # ys) = x # sep # intersperse sep (y # ys)"

text \<open>An embedding service and a store that never fail.\<close>

definition constant_embedding :: "string \<Rightarrow> error + nat" where
  "constant_embedding text = Inr 0"

definition accepting_store :: "nat vector list \<Rightarrow> error option" where
  "accepting_store vectors = None"

text \<open>An embedding service that fails on the encoding of one table.\<close>

definition failing_embedding :: "string \<Rightarrow> error + nat" where
  "failing_embedding text =
     (if text = createSchemaText example_schema then Inl BedrockError else Inr 0)"

definition other_schema :: table_schema where
  "other_schema = example_schema \<lparr> table_name := JStr ''core__claim'' \<rparr>"

text \<open>A catalog of 121 tables whose last table is the one the embedding service fails on.\<close>

definition failing_catalog :: "table_schema list" where
  "failing_catalog = replicate 120 other_schema @ [example_schema]"

text \<open>Whether the service lists an index of the given name.\<close>

definition index_listed :: "pinecone \<Rightarrow> string \<Rightarrow> bool" where
  "index_listed p name =
     (case indexes p of None \<Rightarrow> False | Some l \<Rightarrow> list_ex (\<lambda>idx. idx_name idx = name) l)"

text \<open>A service that already has the index, provisioned and ready.\<close>

definition provisioned_service :: pinecone where
  "provisioned_service =
     \<lparr> listIndexes_result = None, createIndex_result = None, provisioning_ms = 20000,
       indexes = Some [\<lparr> idx_name = ''tuva-schemas'', idx_dimension = 1536, idx_metric = ''cosine'',
                         idx_cloud = ''aws'', idx_region = ''us-east-1'', ready_at = 0 \<rparr>],
       now = 5 \<rparr>"


section \<open>Properties\<close>

lemma split_lines_no_newline: "CHR 0x0A \<notin> set a \<Longrightarrow> split_lines a = [a]"
  by (induction a) auto

lemma split_lines_append:
  "CHR 0x0A \<notin> set a \<Longrightarrow> split_lines (a @ CHR 0x0A # b) = a # split_lines b"
  by (induction a) auto

lemma split_lines_join:
  "\<forall>l\<in>set ls. CHR 0x0A \<notin> set l \<Longrightarrow>
   split_lines (js_join [CHR 0x0A] ls) = (if ls = [] then [[]] else ls)"
proof (induction ls)
  case Nil
  then show ?case by simp
next
  case (Cons x xs)
  then show ?case
    by (cases xs) (simp_all add: split_lines_no_newline split_lines_append)
qed

lemma createSchemaText_lines:
  assumes "CHR 0x0A \<notin> set (js_to_string (table_name s))"
    and "CHR 0x0A \<notin> set (js_to_string (js_or (description s) (JStr [])))"
    and "\<forall>c\<in>set (columns s). CHR 0x0A \<notin> set (column_text c)"
  shows "split_lines (createSchemaText s) =
           [js_to_string (table_name s), js_to_string (js_or (description s) (JStr [])), ''Columns:'']
           @ (if columns s = [] then [[]] else map column_text (columns s))"
proof -
  have "split_lines (js_join [CHR 0x0A] (map column_text (columns s))) =
          (if columns s = [] then [[]] else map column_text (columns s))"
    using assms(3) by (simp add: split_lines_join)
  then show ?thesis
    using assms(1,2) by (simp add: createSchemaText_def Let_def split_lines_append)
qed

text \<open>
  C2. The text encoder is a function of the schema alone, so equal schemas give equal
  strings. For every schema its output is the table name, a line feed, the description
  (empty when absent), a line feed, the header \<open>Columns:\<close>, a line feed, and the column
  lines joined by line feeds, one per column in order, each of the form
  \<open>  - name (type): description\<close> with \<open>No description\<close> for an absent or empty
  description. When no field contains a line feed itself, the output cut at its line
  feeds is exactly these lines (with no column, an empty string follows the header).
\<close>

theorem createSchemaText_layout:
  "createSchemaText s =
     js_to_string (table_name s) @ [CHR 0x0A] @
     (if truthy (description s) then js_to_string (description s) else []) @ [CHR 0x0A] @
     ''Columns:'' @ [CHR 0x0A] @
     js_join [CHR 0x0A]
       (map (\<lambda>c. ''  - '' @ js_to_string (col_name c) @ '' ('' @
                  js_to_string (col_type c) @ ''): '' @
                  (if col_description c = JUndefined \<or> col_description c = JStr [] \<or>
                      \<not> truthy (col_description c)
                   then ''No description'' else js_to_string (col_description c)))
          (columns s)) \<and>
   (CHR 0x0A \<notin> set (js_to_string (table_name s)) \<and>
    CHR 0x0A \<notin> set (js_to_string (description s)) \<and>
    (\<forall>c\<in>set (columns s).
       CHR 0x0A \<notin> set (js_to_string (col_name c)) \<and>
       CHR 0x0A \<notin> set (js_to_string (col_type c)) \<and>
       CHR 0x0A \<notin> set (js_to_string (col_description c))) \<longrightarrow>
    split_lines (createSchemaText s) =
      [js_to_string (table_name s),
       (if truthy (description s) then js_to_string (description s) else []),
       ''Columns:''] @
      (if columns s = [] then [[]]
       else map (\<lambda>c. ''  - '' @ js_to_string (col_name c) @ '' ('' @
                      js_to_string (col_type c) @ ''): '' @
                      (if col_description c = JUndefined \<or> col_description c = JStr [] \<or>
                          \<not> truthy (col_description c)
                       then ''No description'' else js_to_string (col_description c)))
              (columns s))) \<and>
   (\<forall>s'. s' = s \<longrightarrow> createSchemaText s' = createSchemaText s)"
proof -
  have t: "map column_text (columns s) =
             map (\<lambda>c. ''  - '' @ js_to_string (col_name c) @ '' ('' @
                        js_to_string (col_type c) @ ''): '' @
                        (if col_description c = JUndefined \<or> col_description c = JStr [] \<or>
                            \<not> truthy (col_description c)
                         then ''No description'' else js_to_string (col_description c)))
               (columns s)"
    by (rule map_cong) (auto simp: column_text_def js_or_def)
  have e: "js_to_string (js_or (description s) (JStr [])) =
             (if truthy (description s) then js_to_string (description s) else [])"
    by (simp add: js_or_def)
  have whole: "createSchemaText s =
     js_to_string (table_name s) @ [CHR 0x0A] @
     (if truthy (description s) then js_to_string (description s) else []) @ [CHR 0x0A] @
     ''Columns:'' @ [CHR 0x0A] @ js_join [CHR 0x0A] (map column_text (columns s))"
    unfolding createSchemaText_def Let_def e by simp
  have cut: "CHR 0x0A \<notin> set (js_to_string (table_name s)) \<and>
      CHR 0x0A \<notin> set (js_to_string (description s)) \<and>
      (\<forall>c\<in>set (columns s).
         CHR 0x0A \<notin> set (js_to_string (col_name c)) \<and>
         CHR 0x0A \<notin> set (js_to_string (col_type c)) \<and>
         CHR 0x0A \<notin> set (js_to_string (col_description c))) \<longrightarrow>
      split_lines (createSchemaText s) =
        [js_to_string (table_name s),
         (if truthy (description s) then js_to_string (description s) else []),
         ''Columns:''] @
        (if columns s = [] then [[]] else map column_text (columns s))"
  proof (intro impI, elim conjE)
    assume n: "CHR 0x0A \<notin> set (js_to_string (table_name s))"
      and d: "CHR 0x0A \<notin> set (js_to_string (description s))"
      and c: "\<forall>c\<in>set (columns s).
           CHR 0x0A \<notin> set (js_to_string (col_name c)) \<and>
           CHR 0x0A \<notin> set (js_to_string (col_type c)) \<and>
           CHR 0x0A \<notin> set (js_to_string (col_description c))"
    have d': "CHR 0x0A \<notin> set (js_to_string (js_or (description s) (JStr [])))"
      using d by (simp add: js_or_def)
    have c': "\<forall>c\<in>set (columns s). CHR 0x0A \<notin> set (column_text c)"
      using c by (auto simp: column_text_def js_or_def)
    show "split_lines (createSchemaText s) =
        [js_to_string (table_name s),
         (if truthy (description s) then js_to_string (description s) else []),
         ''Columns:''] @
        (if columns s = [] then [[]] else map column_text (columns s))"
      using createSchemaText_lines [OF n d' c'] unfolding e .
  qed
  have det: "\<forall>s'. s' = s \<longrightarrow> createSchemaText s' = createSchemaText s"
    by simp
  show ?thesis
    by (rule conjI [OF whole [unfolded t] conjI [OF cut [unfolded t] det]])
qed

theorem createSchemaText_layout_witness:
  "split_lines (createSchemaText example_schema) =
     [''core__patient'', ''One row per patient'', ''Columns:'',
      ''  - id (TEXT): Patient key'',
      ''  - state (TEXT): No description'',
      ''  - age (INT): No description'']"
proof -
  have free: "CHR 0x0A \<notin> set (js_to_string (table_name example_schema)) \<and>
      CHR 0x0A \<notin> set (js_to_string (description example_schema)) \<and>
      (\<forall>c\<in>set (columns example_schema).
         CHR 0x0A \<notin> set (js_to_string (col_name c)) \<and>
         CHR 0x0A \<notin> set (js_to_string (col_type c)) \<and>
         CHR 0x0A \<notin> set (js_to_string (col_description c)))"
    by (simp add: example_schema_def)
  from createSchemaText_layout [of example_schema, THEN conjunct2, THEN conjunct1, rule_format, OF free]
  show ?thesis
    by (simp add: example_schema_def del: split_lines.simps)
qed

lemma map_result_ok: "\<forall>x\<in>set xs. f x = Inr (g x) \<Longrightarrow> map_result f xs = Inr (map g xs)"
  by (induction xs) auto

lemma concat_map_if: "concat (map (\<lambda>m. if q m then [f m] else []) ms) = map f (filter q ms)"
  by (induction ms) auto

lemma is_mapping_not_nullish: "is_mapping v \<Longrightarrow> \<not> nullish v"
  by (cases v) auto

lemma shapeA_column_mapping: "is_mapping c \<Longrightarrow> shapeA_column c = Inr (columnA c)"
  by (simp add: shapeA_column_def columnA_def is_mapping_not_nullish)

lemma shapeA_model_valid:
  assumes "valid_model m"
  shows "shapeA_model m = Inr (if has_name_and_columns m then [modelA m] else [])"
proof (cases "has_name_and_columns m")
  case False
  with assms show ?thesis
    by (auto simp: shapeA_model_def valid_model_def has_name_and_columns_def is_mapping_not_nullish)
next
  case True
  then have "js_prop m ''columns'' \<noteq> JUndefined"
    by (auto simp: has_name_and_columns_def)
  with assms obtain cs where cs: "js_prop m ''columns'' = JArr cs" "list_all is_mapping cs"
    by (cases "js_prop m ''columns''") (auto simp: valid_model_def)
  then have "map_result shapeA_column cs = Inr (map columnA cs)"
    by (intro map_result_ok) (simp add: list_all_iff shapeA_column_mapping)
  with True assms cs show ?thesis
    by (simp add: shapeA_model_def valid_model_def has_name_and_columns_def
        is_mapping_not_nullish modelA_def)
qed

lemma parse_document_shapeA:
  assumes "valid_shapeA data"
  shows "parse_document data =
           Inr (map modelA (filter has_name_and_columns (array_elems (js_prop data ''models''))))"
proof -
  from assms obtain ms where ms: "js_prop data ''models'' = JArr ms" "list_all valid_model ms"
    by (cases "js_prop data ''models''") (auto simp: valid_shapeA_def)
  have obj: "truthy data" "js_typeof data = ''object''"
    using assms by (cases data; simp add: valid_shapeA_def)+
  have "map_result shapeA_model ms =
          Inr (map (\<lambda>m. if has_name_and_columns m then [modelA m] else []) ms)"
    using ms(2) by (intro map_result_ok) (simp add: list_all_iff shapeA_model_valid)
  with assms ms obj show ?thesis
    by (simp add: parse_document_def valid_shapeA_def js_or_def concat_map_if)
qed

lemma map_result_map: "map_result f (map g xs) = map_result (\<lambda>x. f (g x)) xs"
  by (induction xs) (auto split: sum.splits)

lemma shapeB_column_ok:
  "js_typeof c = ''string'' \<or> is_mapping c \<Longrightarrow> shapeB_column c = Inr (columnB c)"
  by (auto simp: shapeB_column_def columnB_def is_mapping_not_nullish)

lemma shapeB_entry_valid:
  assumes "distinct (map fst kvs)" and "(k, v) \<in> set kvs" and "valid_entryB v"
  shows "shapeB_entry (JObj kvs) k = Inr (if has_columns v then [entryB (k, v)] else [])"
proof -
  have v: "js_prop (JObj kvs) k = v"
    using assms(1,2) by simp
  show ?thesis
  proof (cases "has_columns v")
    case False
    with assms(3) v show ?thesis
      by (cases v) (auto simp: shapeB_entry_def has_columns_def valid_entryB_def)
  next
    case True
    with assms(3) obtain cs where cs: "js_prop v ''columns'' = JArr cs"
      "list_all (\<lambda>c. js_typeof c = ''string'' \<or> is_mapping c) cs"
      by (cases "js_prop v ''columns''") (auto simp: valid_entryB_def)
    then have "map_result shapeB_column cs = Inr (map columnB cs)"
      by (intro map_result_ok) (simp add: list_all_iff shapeB_column_ok)
    moreover have "\<not> nullish v"
      using True by (cases v) (auto simp: has_columns_def)
    ultimately show ?thesis
      using True cs v by (simp add: shapeB_entry_def has_columns_def entryB_def js_or_def)
  qed
qed

lemma parse_document_shapeB:
  assumes "valid_shapeB kvs"
  shows "parse_document (JObj kvs) = Inr (map entryB (filter (\<lambda>kv. has_columns (snd kv)) kvs))"
proof -
  have "map_result (\<lambda>kv. shapeB_entry (JObj kvs) (fst kv)) kvs =
          Inr (map (\<lambda>kv. if has_columns (snd kv) then [entryB kv] else []) kvs)"
  proof (intro map_result_ok ballI)
    fix kv assume "kv \<in> set kvs"
    with assms show "shapeB_entry (JObj kvs) (fst kv) =
                       Inr (if has_columns (snd kv) then [entryB kv] else [])"
      using shapeB_entry_valid [of kvs "fst kv" "snd kv"]
      by (simp add: valid_shapeB_def list_all_iff)
  qed
  with assms show ?thesis
    by (simp add: parse_document_def valid_shapeB_def map_result_map concat_map_if
        del: js_prop.simps)
qed

text \<open>
  C3. In a valid Shape-A document (a mapping with \<open>version: 2\<close> whose \<open>models\<close> is a
  list of mappings, each with no \<open>columns\<close> or a list of mappings as \<open>columns\<close>), the
  model entries that have a name and a column list give one schema each, in order: the
  schema's name is the entry's name, and its columns are the entry's columns in order,
  each with the type of \<open>data_type\<close>, else of \<open>dataType\<close>, else \<open>TEXT\<close>. An entry
  with a name and a non-empty column list is among them.
\<close>

theorem shapeA_entries_in_order:
  assumes "valid_shapeA data" and "js_prop data ''models'' = JArr ms"
  shows "\<exists>schemas.
           parse_document data = Inr schemas \<and>
           length schemas = length (filter has_name_and_columns ms) \<and>
           (\<forall>i<length schemas.
              table_name (schemas ! i) = js_prop (filter has_name_and_columns ms ! i) ''name'' \<and>
              (\<exists>cs. js_prop (filter has_name_and_columns ms ! i) ''columns'' = JArr cs \<and>
                 length (columns (schemas ! i)) = length cs \<and>
                 (\<forall>j<length cs.
                    col_name (columns (schemas ! i) ! j) = js_prop (cs ! j) ''name'' \<and>
                    col_type (columns (schemas ! i) ! j) =
                      (if truthy (js_prop (cs ! j) ''data_type'') then js_prop (cs ! j) ''data_type''
                       else if truthy (js_prop (cs ! j) ''dataType'') then js_prop (cs ! j) ''dataType''
                       else JStr ''TEXT'') \<and>
                    (js_prop (cs ! j) ''data_type'' = JUndefined \<and>
                     js_prop (cs ! j) ''dataType'' = JUndefined \<longrightarrow>
                       col_type (columns (schemas ! i) ! j) = JStr ''TEXT'')))) \<and>
           (\<forall>m\<in>set ms.
              truthy (js_prop m ''name'') \<and> (\<exists>c cs. js_prop m ''columns'' = JArr (c # cs)) \<longrightarrow>
                m \<in> set (filter has_name_and_columns ms))"
proof -
  let ?es = "filter has_name_and_columns ms"
  have eq: "parse_document data = Inr (map modelA ?es)"
    using parse_document_shapeA [OF assms(1)] assms(2) by simp
  have valid: "\<forall>m\<in>set ms. valid_model m"
    using assms by (simp add: valid_shapeA_def list_all_iff)
  have entry: "table_name (modelA (?es ! i)) = js_prop (?es ! i) ''name'' \<and>
        (\<exists>cs. js_prop (?es ! i) ''columns'' = JArr cs \<and>
           length (columns (modelA (?es ! i))) = length cs \<and>
           (\<forall>j<length cs.
              col_name (columns (modelA (?es ! i)) ! j) = js_prop (cs ! j) ''name'' \<and>
              col_type (columns (modelA (?es ! i)) ! j) =
                (if truthy (js_prop (cs ! j) ''data_type'') then js_prop (cs ! j) ''data_type''
                 else if truthy (js_prop (cs ! j) ''dataType'') then js_prop (cs ! j) ''dataType''
                 else JStr ''TEXT'') \<and>
              (js_prop (cs ! j) ''data_type'' = JUndefined \<and>
               js_prop (cs ! j) ''dataType'' = JUndefined \<longrightarrow>
                 col_type (columns (modelA (?es ! i)) ! j) = JStr ''TEXT'')))"
    if i: "i < length ?es" for i
  proof -
    from i have mem: "?es ! i \<in> set ?es" by (rule nth_mem)
    then have v: "valid_model (?es ! i)" and h: "has_name_and_columns (?es ! i)"
      using valid by auto
    from h have "js_prop (?es ! i) ''columns'' \<noteq> JUndefined"
      by (auto simp: has_name_and_columns_def)
    with v obtain cs where cs: "js_prop (?es ! i) ''columns'' = JArr cs"
      by (cases "js_prop (?es ! i) ''columns''") (auto simp: valid_model_def)
    show ?thesis
      using cs by (simp add: modelA_def columnA_def js_or_def)
  qed
  have incl: "\<forall>m\<in>set ms.
      truthy (js_prop m ''name'') \<and> (\<exists>c cs. js_prop m ''columns'' = JArr (c # cs)) \<longrightarrow>
        m \<in> set ?es"
    by (auto simp: has_name_and_columns_def)
  show ?thesis
    unfolding eq using entry incl by (intro exI [of _ "map modelA ?es"]) simp
qed

theorem shapeA_entries_in_order_witness:
  "valid_shapeA example_shapeA \<and>
   (\<exists>schemas. parse_document example_shapeA = Inr schemas \<and>
      map table_name schemas = [JStr ''core__patient'', JStr ''core__claim''] \<and>
      map col_type (columns (schemas ! 0)) = [JStr ''VARCHAR'', JStr ''INT'', JStr ''TEXT''])"
proof -
  have v: "valid_shapeA example_shapeA"
    by (simp add: example_shapeA_def valid_shapeA_def valid_model_def)
  have m: "js_prop example_shapeA ''models'' =
             JArr (array_elems (js_prop example_shapeA ''models''))"
    by (simp add: example_shapeA_def)
  from shapeA_entries_in_order [OF v m] obtain schemas
    where s: "parse_document example_shapeA = Inr schemas" by blast
  have "parse_document example_shapeA =
          Inr (map modelA (filter has_name_and_columns (array_elems (js_prop example_shapeA ''models''))))"
    using v by (rule parse_document_shapeA)
  with s have "schemas =
      map modelA (filter has_name_and_columns (array_elems (js_prop example_shapeA ''models'')))"
    by simp
  then have "map table_name schemas = [JStr ''core__patient'', JStr ''core__claim''] \<and>
      map col_type (columns (schemas ! 0)) = [JStr ''VARCHAR'', JStr ''INT'', JStr ''TEXT'']"
    by (simp add: example_shapeA_def has_name_and_columns_def modelA_def columnA_def js_or_def)
  with v s show ?thesis by auto
qed

text \<open>
  C4. In a Shape-B document (a mapping, not marked \<open>version: 2\<close>, whose values are not
  \<open>null\<close> and whose column lists hold bare strings and mappings), the values that have
  a column list give one schema each, in order, named by their key; a column given as
  the bare string \<open>s\<close> becomes the column \<open>s\<close> of type \<open>TEXT\<close> with the empty
  description, and a column mapping with neither \<open>type\<close> nor \<open>data_type\<close> gets the type
  \<open>TEXT\<close>. In Shape A a column mapping with neither \<open>data_type\<close> nor \<open>dataType\<close> gets
  the type \<open>TEXT\<close>.
\<close>

theorem shapeB_bare_string_columns:
  assumes "valid_shapeB kvs"
  shows "(\<exists>schemas.
            parse_document (JObj kvs) = Inr schemas \<and>
            length schemas = length (filter (\<lambda>kv. has_columns (snd kv)) kvs) \<and>
            (\<forall>i<length schemas.
               table_name (schemas ! i) = JStr (fst (filter (\<lambda>kv. has_columns (snd kv)) kvs ! i)) \<and>
               (\<exists>cs. js_prop (snd (filter (\<lambda>kv. has_columns (snd kv)) kvs ! i)) ''columns'' = JArr cs \<and>
                  length (columns (schemas ! i)) = length cs \<and>
                  (\<forall>j<length cs.
                     (\<forall>s. cs ! j = JStr s \<longrightarrow>
                        columns (schemas ! i) ! j =
                          \<lparr> col_name = JStr s, col_type = JStr ''TEXT'', col_description = JStr [] \<rparr>) \<and>
                     (is_mapping (cs ! j) \<and> js_prop (cs ! j) ''type'' = JUndefined \<and>
                      js_prop (cs ! j) ''data_type'' = JUndefined \<longrightarrow>
                        col_type (columns (schemas ! i) ! j) = JStr ''TEXT''))))) \<and>
         (\<forall>c. is_mapping c \<and> js_prop c ''data_type'' = JUndefined \<and>
               js_prop c ''dataType'' = JUndefined \<longrightarrow>
               (\<exists>col. shapeA_column c = Inr col \<and> col_type col = JStr ''TEXT''))"
proof -
  let ?es = "filter (\<lambda>kv. has_columns (snd kv)) kvs"
  have eq: "parse_document (JObj kvs) = Inr (map entryB ?es)"
    using assms by (rule parse_document_shapeB)
  have valid: "\<forall>kv\<in>set kvs. valid_entryB (snd kv)"
    using assms by (simp add: valid_shapeB_def list_all_iff)
  have entry: "table_name (entryB (?es ! i)) = JStr (fst (?es ! i)) \<and>
        (\<exists>cs. js_prop (snd (?es ! i)) ''columns'' = JArr cs \<and>
           length (columns (entryB (?es ! i))) = length cs \<and>
           (\<forall>j<length cs.
              (\<forall>s. cs ! j = JStr s \<longrightarrow>
                 columns (entryB (?es ! i)) ! j =
                   \<lparr> col_name = JStr s, col_type = JStr ''TEXT'', col_description = JStr [] \<rparr>) \<and>
              (is_mapping (cs ! j) \<and> js_prop (cs ! j) ''type'' = JUndefined \<and>
               js_prop (cs ! j) ''data_type'' = JUndefined \<longrightarrow>
                 col_type (columns (entryB (?es ! i)) ! j) = JStr ''TEXT'')))"
    if i: "i < length ?es" for i
  proof -
    from i have "?es ! i \<in> set ?es" by (rule nth_mem)
    then have v: "valid_entryB (snd (?es ! i))" and h: "has_columns (snd (?es ! i))"
      using valid by auto
    then obtain cs where cs: "js_prop (snd (?es ! i)) ''columns'' = JArr cs"
      by (cases "js_prop (snd (?es ! i)) ''columns''") (auto simp: valid_entryB_def)
    have "is_mapping c \<Longrightarrow> js_typeof c \<noteq> ''string''" for c
      by (cases c) auto
    then show ?thesis
      using cs by (simp add: entryB_def columnB_def js_or_def)
  qed
  have colA: "\<forall>c. is_mapping c \<and> js_prop c ''data_type'' = JUndefined \<and>
               js_prop c ''dataType'' = JUndefined \<longrightarrow>
               (\<exists>col. shapeA_column c = Inr col \<and> col_type col = JStr ''TEXT'')"
    by (simp add: shapeA_column_mapping columnA_def js_or_def)
  have "\<exists>schemas.
            parse_document (JObj kvs) = Inr schemas \<and>
            length schemas = length ?es \<and>
            (\<forall>i<length schemas.
               table_name (schemas ! i) = JStr (fst (?es ! i)) \<and>
               (\<exists>cs. js_prop (snd (?es ! i)) ''columns'' = JArr cs \<and>
                  length (columns (schemas ! i)) = length cs \<and>
                  (\<forall>j<length cs.
                     (\<forall>s. cs ! j = JStr s \<longrightarrow>
                        columns (schemas ! i) ! j =
                          \<lparr> col_name = JStr s, col_type = JStr ''TEXT'', col_description = JStr [] \<rparr>) \<and>
                     (is_mapping (cs ! j) \<and> js_prop (cs ! j) ''type'' = JUndefined \<and>
                      js_prop (cs ! j) ''data_type'' = JUndefined \<longrightarrow>
                        col_type (columns (schemas ! i) ! j) = JStr ''TEXT''))))"
    unfolding eq using entry by (intro exI [of _ "map entryB ?es"]) simp
  with colA show ?thesis by (rule conjI [rotated])
qed

theorem shapeB_bare_string_columns_witness:
  "valid_shapeB example_shapeB \<and>
   (\<exists>schemas. parse_document (JObj example_shapeB) = Inr schemas \<and>
      map table_name schemas = [JStr ''core__patient''] \<and>
      columns (schemas ! 0) =
        [\<lparr> col_name = JStr ''id'', col_type = JStr ''TEXT'', col_description = JStr [] \<rparr>,
         \<lparr> col_name = JStr ''age'', col_type = JStr ''INT'', col_description = JStr [] \<rparr>,
         \<lparr> col_name = JStr ''state'', col_type = JStr ''TEXT'', col_description = JStr [] \<rparr>])"
proof -
  have v: "valid_shapeB example_shapeB"
    by (simp add: example_shapeB_def valid_shapeB_def valid_entryB_def has_columns_def)
  from shapeB_bare_string_columns [OF v] obtain schemas
    where s: "parse_document (JObj example_shapeB) = Inr schemas" by blast
  have "parse_document (JObj example_shapeB) =
          Inr (map entryB (filter (\<lambda>kv. has_columns (snd kv)) example_shapeB))"
    using v by (rule parse_document_shapeB)
  with s have "schemas = map entryB (filter (\<lambda>kv. has_columns (snd kv)) example_shapeB)"
    by simp
  then have "map table_name schemas = [JStr ''core__patient''] \<and>
      columns (schemas ! 0) =
        [\<lparr> col_name = JStr ''id'', col_type = JStr ''TEXT'', col_description = JStr [] \<rparr>,
         \<lparr> col_name = JStr ''age'', col_type = JStr ''INT'', col_description = JStr [] \<rparr>,
         \<lparr> col_name = JStr ''state'', col_type = JStr ''TEXT'', col_description = JStr [] \<rparr>]"
    by (simp add: example_shapeB_def has_columns_def entryB_def columnB_def js_or_def)
  with v s show ?thesis by auto
qed

lemma parse_files_acc:
  "parse_files files (warnings, allSchemas) =
     (warnings @ file_warnings files, allSchemas @ file_records files)"
proof (induction files arbitrary: warnings allSchemas)
  case Nil
  then show ?case by (simp add: file_warnings_def file_records_def)
next
  case (Cons f fs)
  then show ?case
    by (cases "parseYamlFile f") (simp add: file_warnings_def file_records_def)
qed

lemma file_records_append: "file_records (xs @ ys) = file_records xs @ file_records ys"
  by (simp add: file_records_def)

lemma file_warnings_append: "file_warnings (xs @ ys) = file_warnings xs @ file_warnings ys"
  by (simp add: file_warnings_def)

lemma parseTuvaSchema_success:
  assumes "clone_result r = None" and "models_dir r = Some items" and "write_result r = None"
  shows "parseTuvaSchema r =
           (file_warnings (findYamlFiles (path_join REPO_DIR ''models'') (Some items)) @
              fst (extractDocumentation r),
            Inr (Some (map (enrich (snd (extractDocumentation r)))
                         (file_records (findYamlFiles (path_join REPO_DIR ''models'') (Some items))))))"
  using assms by (simp add: parseTuvaSchema_def Let_def parse_files_acc)

lemma enrich_keeps: "table_name (enrich d s) = table_name s" "columns (enrich d s) = columns s"
  by (simp_all add: enrich_def Let_def)

text \<open>
  C1 (as the code has it). When the clone, the models directory and the write succeed,
  the catalog holds the records of every source file, in processing order, one entry per
  record: names and columns are those the files gave, and no entry is dropped or merged.
\<close>

theorem catalog_is_concatenation:
  assumes "clone_result r = None" and "models_dir r = Some items" and "write_result r = None"
  shows "\<exists>lg catalog.
           parseTuvaSchema r = (lg, Inr (Some catalog)) \<and>
           map (\<lambda>s. (table_name s, columns s)) catalog =
             concat (map (\<lambda>file. map (\<lambda>s. (table_name s, columns s)) (snd (parseYamlFile file)))
                       (findYamlFiles (path_join REPO_DIR ''models'') (Some items)))"
proof -
  have "map (\<lambda>s. (table_name s, columns s)) (map (enrich d) (file_records files)) =
          concat (map (\<lambda>file. map (\<lambda>s. (table_name s, columns s)) (snd (parseYamlFile file))) files)"
    for d files
    by (simp add: file_records_def map_concat comp_def enrich_keeps)
  then show ?thesis
    unfolding parseTuvaSchema_success [OF assms] by blast
qed

theorem catalog_is_concatenation_witness:
  "\<exists>lg catalog.
     parseTuvaSchema duplicate_repo = (lg, Inr (Some catalog)) \<and>
     map (\<lambda>s. (table_name s, columns s)) catalog =
       [(JStr ''core__patient'',
         [\<lparr> col_name = JStr ''id'', col_type = JStr ''TEXT'', col_description = JStr [] \<rparr>]),
        (JStr ''core__patient'',
         [\<lparr> col_name = JStr ''person_id'', col_type = JStr ''TEXT'', col_description = JStr [] \<rparr>])]"
proof -
  have "clone_result duplicate_repo = None" "write_result duplicate_repo = None"
    "models_dir duplicate_repo =
       Some [FileItem ''a.yml'' (Loaded (JObj [(''core__patient'', JObj [(''columns'', JArr [JStr ''id''])])])),
             FileItem ''b.yml'' (Loaded (JObj [(''core__patient'', JObj [(''columns'', JArr [JStr ''person_id''])])]))]"
    by (simp_all add: duplicate_repo_def)
  from catalog_is_concatenation [OF this(1) this(3) this(2)] show ?thesis
    by (simp add: findYamlFiles_def ends_with_def path_join_def parseYamlFile_def
        parse_document_def shapeB_entry_def shapeB_column_def js_or_def)
qed

text \<open>
  Two source files that both define \<open>core__patient\<close> give a catalog with two entries of
  that name, the earlier file's first.
\<close>

theorem catalog_keeps_duplicates:
  "snd (parseTuvaSchema duplicate_repo) =
     Inr (Some [\<lparr> table_name = JStr ''core__patient'', description = JStr [],
                  columns = [\<lparr> col_name = JStr ''id'', col_type = JStr ''TEXT'',
                               col_description = JStr [] \<rparr>],
                  full_description = JStr [] \<rparr>,
                \<lparr> table_name = JStr ''core__patient'', description = JStr [],
                  columns = [\<lparr> col_name = JStr ''person_id'', col_type = JStr ''TEXT'',
                               col_description = JStr [] \<rparr>],
                  full_description = JStr [] \<rparr>])"
  by (simp add: duplicate_repo_def parseTuvaSchema_def extractDocumentation_def Let_def
      findYamlFiles_def ends_with_def path_join_def parseYamlFile_def
      parse_document_def shapeB_entry_def shapeB_column_def js_or_def enrich_def)










text \<open>
  C10. When the clone has no models directory, \<open>parseTuvaSchema\<close> logs that and
  returns \<open>undefined\<close>: neither a list nor an exception. \<open>setupTuva\<close>, which reads the
  \<open>length\<close> of the result, then ends with a \<open>TypeError\<close> and exit code 1, before it has
  touched the vector store.
\<close>

theorem missing_models_dir_returns_undefined:
  assumes "clone_result r = None" and "models_dir r = None"
  shows "parseTuvaSchema r = ([ModelsDirNotFound], Inr None) \<and>
         ending (setupTuva r p invoke upsert) = Exited 1 TypeError \<and>
         index_events (setupTuva r p invoke upsert) = [] \<and>
         service (setupTuva r p invoke upsert) = p"
  using assms by (simp add: parseTuvaSchema_def setupTuva_def)

theorem missing_models_dir_returns_undefined_witness:
  "parseTuvaSchema no_models_repo = ([ModelsDirNotFound], Inr None) \<and>
   ending (setupTuva no_models_repo fresh_service (\<lambda>t. Inr (0::nat)) (\<lambda>i v. None)) =
     Exited 1 TypeError"
proof -
  have "clone_result no_models_repo = None" "models_dir no_models_repo = None"
    by (simp_all add: no_models_repo_def)
  from missing_models_dir_returns_undefined [OF this] show ?thesis
    by blast
qed

declare upload_loop.simps [simp del]
declare batches.simps [simp del]

lemma map_result_Inr_length: "map_result f xs = Inr ys \<Longrightarrow> length ys = length xs"
  by (induction xs arbitrary: ys) (auto split: sum.splits)

lemma map_result_Inr_all: "map_result f xs = Inr ys \<Longrightarrow> x \<in> set xs \<Longrightarrow> \<exists>y. f x = Inr y"
  by (induction xs arbitrary: ys) (auto split: sum.splits)

lemma map_result_Inl_some: "map_result f xs = Inl e \<Longrightarrow> \<exists>x\<in>set xs. f x = Inl e"
  by (induction xs) (auto split: sum.splits)

lemma map_result_append:
  "map_result f (xs @ ys) =
     (case map_result f xs of
        Inl e \<Rightarrow> Inl e
      | Inr a \<Rightarrow> (case map_result f ys of Inl e \<Rightarrow> Inl e | Inr b \<Rightarrow> Inr (a @ b)))"
  by (induction xs) (auto split: sum.splits)

lemma map_result_take: "map_result f xs = Inr ys \<Longrightarrow> map_result f (take n xs) = Inr (take n ys)"
proof (induction xs arbitrary: ys n)
  case Nil
  then show ?case by simp
next
  case (Cons x xs)
  then show ?case by (cases n) (auto split: sum.splits)
qed

lemma map_result_drop: "map_result f xs = Inr ys \<Longrightarrow> map_result f (drop n xs) = Inr (drop n ys)"
proof (induction xs arbitrary: ys n)
  case Nil
  then show ?case by simp
next
  case (Cons x xs)
  then show ?case by (cases n) (auto split: sum.splits)
qed

lemma promise_all_map: "promise_all (map f xs) = map_result f xs"
  by (simp add: promise_all_def map_result_map)

lemma make_vector_Inl: "make_vector invoke s = Inl e \<Longrightarrow> invoke (createSchemaText s) = Inl e"
  by (auto simp: make_vector_def generateEmbedding_def Let_def split: sum.splits)

lemma make_vector_Inr: "make_vector invoke s = Inr v \<Longrightarrow> vec_id v = table_name s"
  by (auto simp: make_vector_def generateEmbedding_def Let_def split: sum.splits)

lemma make_vector_ids:
  "map_result (make_vector invoke) schemas = Inr vs \<Longrightarrow> map vec_id vs = map table_name schemas"
  by (induction schemas arbitrary: vs) (auto split: sum.splits dest: make_vector_Inr)

text \<open>One iteration of the loop, in each of its outcomes.\<close>

lemma upload_loop_done:
  "\<not> i < length schemas \<Longrightarrow>
   upload_loop invoke upsert schemas i uploaded = ([LogAllUploaded uploaded], Inr JUndefined)"
  by (subst upload_loop.simps) simp

lemma upload_loop_embed_fails:
  "i < length schemas \<Longrightarrow>
   map_result (make_vector invoke) (take batchSize (drop i schemas)) = Inl e \<Longrightarrow>
   upload_loop invoke upsert schemas i uploaded = ([], Inl e)"
  by (subst upload_loop.simps) (simp add: js_slice_def promise_all_map Let_def)

lemma upload_loop_upsert_fails:
  "i < length schemas \<Longrightarrow>
   map_result (make_vector invoke) (take batchSize (drop i schemas)) = Inr vectors \<Longrightarrow>
   upsert vectors = Some e \<Longrightarrow>
   upload_loop invoke upsert schemas i uploaded = ([], Inl e)"
  by (subst upload_loop.simps) (simp add: js_slice_def promise_all_map Let_def)

lemma upload_loop_step:
  "i < length schemas \<Longrightarrow>
   map_result (make_vector invoke) (take batchSize (drop i schemas)) = Inr vectors \<Longrightarrow>
   upsert vectors = None \<Longrightarrow>
   upload_loop invoke upsert schemas i uploaded =
     ([Upsert vectors,
       LogUploaded (uploaded + length (take batchSize (drop i schemas))) (length schemas)] @
      (if i + batchSize < length schemas then [Sleep 1000] else []) @
      fst (upload_loop invoke upsert schemas (i + batchSize)
             (uploaded + length (take batchSize (drop i schemas)))),
      snd (upload_loop invoke upsert schemas (i + batchSize)
             (uploaded + length (take batchSize (drop i schemas)))))"
  by (subst upload_loop.simps) (simp add: js_slice_def promise_all_map Let_def)

text \<open>Pieces of a list.\<close>

lemma batches_Nil: "batches n [] = []"
  by (subst batches.simps) simp

lemma batches_Cons:
  "0 < n \<Longrightarrow> xs \<noteq> [] \<Longrightarrow> batches n xs = take n xs # batches n (drop n xs)"
  by (subst batches.simps) simp

lemma batches_eq_Nil: "0 < n \<Longrightarrow> batches n xs = [] \<longleftrightarrow> xs = []"
  by (subst batches.simps) simp

lemma concat_batches: "0 < n \<Longrightarrow> concat (batches n xs) = xs"
proof (induction n xs rule: batches.induct)
  case (1 n xs)
  then show ?case
    by (cases "xs = []") (simp_all add: batches_Nil batches_Cons)
qed

lemma length_batches: "0 < n \<Longrightarrow> length (batches n xs) = (length xs + n - 1) div n"
proof (induction n xs rule: batches.induct)
  case (1 n xs)
  show ?case
  proof (cases "xs = []")
    case True
    with 1 show ?thesis by (simp add: batches_Nil)
  next
    case False
    with 1 have ih: "length (batches n (drop n xs)) = (length xs - n + n - 1) div n"
      by simp
    have lhs: "(length xs + n - 1) div n = (length xs - 1) div n + 1"
    proof -
      have "length xs + n - 1 = (length xs - 1) + n"
        using False by (cases xs) simp_all
      then have "(length xs + n - 1) div n = ((length xs - 1) + n) div n"
        by (rule arg_cong)
      also have "\<dots> = (length xs - 1) div n + 1"
        using 1(2) by (simp only: div_add_self2)
      finally show ?thesis .
    qed
    have rhs: "(length xs - n + n - 1) div n = (length xs - 1) div n"
    proof (cases "length xs \<le> n")
      case True
      with False 1(2) show ?thesis by (cases xs) simp_all
    next
      case False
      then show ?thesis by simp
    qed
    from False 1(2) ih lhs rhs show ?thesis
      by (simp add: batches_Cons)
  qed
qed

lemma nth_batches:
  "0 < n \<Longrightarrow> k < length (batches n xs) \<Longrightarrow> batches n xs ! k = take n (drop (n * k) xs)"
proof (induction k arbitrary: xs)
  case 0
  then show ?case by (cases "xs = []") (simp_all add: batches_Nil batches_Cons)
next
  case (Suc k)
  then have ne: "xs \<noteq> []" by (auto simp: batches_Nil)
  with Suc show ?case by (simp add: batches_Cons add.commute)
qed

lemma intersperse_Cons:
  "intersperse sep (x # xs) = x # (if xs = [] then [] else sep # intersperse sep xs)"
  by (cases xs) simp_all

lemma batchSize_pos: "0 < batchSize"
  by (simp add: batchSize_def)

lemma upload_loop_success:
  assumes ok: "map_result (make_vector invoke) schemas = Inr vs"
    and up: "\<forall>b. upsert b = None"
  shows "snd (upload_loop invoke upsert schemas i u) = Inr JUndefined \<and>
         upserted (fst (upload_loop invoke upsert schemas i u)) = batches batchSize (drop i vs) \<and>
         filter is_store_event (fst (upload_loop invoke upsert schemas i u)) =
           intersperse (Sleep 1000) (map Upsert (batches batchSize (drop i vs))) \<and>
         (\<exists>pre. fst (upload_loop invoke upsert schemas i u) =
                  pre @ [LogAllUploaded (u + (length schemas - i))])"
proof (induction "length schemas - i" arbitrary: i u rule: less_induct)
  case less
  have len: "length vs = length schemas"
    using ok by (rule map_result_Inr_length)
  show ?case
  proof (cases "i < length schemas")
    case False
    then have "drop i vs = []" using len by simp
    with False show ?thesis
      by (simp add: upload_loop_done batches_Nil)
  next
    case True
    let ?b = "take batchSize (drop i schemas)"
    let ?v = "take batchSize (drop i vs)"
    define u' where "u' = u + length ?b"
    define rest where "rest = upload_loop invoke upsert schemas (i + batchSize) u'"
    have emb: "map_result (make_vector invoke) ?b = Inr ?v"
      using ok by (intro map_result_take map_result_drop)
    have step: "upload_loop invoke upsert schemas i u =
        ([Upsert ?v, LogUploaded u' (length schemas)] @
         (if i + batchSize < length schemas then [Sleep 1000] else []) @ fst rest,
         snd rest)"
      using True emb up by (simp add: upload_loop_step u'_def rest_def)
    have "length schemas - (i + batchSize) < length schemas - i"
      using True batchSize_pos by simp
    from less [OF this, of u']
    have ih1: "snd rest = Inr JUndefined"
      and ih2: "upserted (fst rest) = batches batchSize (drop (i + batchSize) vs)"
      and ih3: "filter is_store_event (fst rest) =
                  intersperse (Sleep 1000) (map Upsert (batches batchSize (drop (i + batchSize) vs)))"
      and ih4: "\<exists>pre. fst rest = pre @ [LogAllUploaded (u' + (length schemas - (i + batchSize)))]"
      by (simp_all add: rest_def)
    have ne: "drop i vs \<noteq> []"
      using True len by simp
    have dd: "drop batchSize (drop i vs) = drop (i + batchSize) vs"
      by (simp add: add.commute)
    have bs: "batches batchSize (drop i vs) = ?v # batches batchSize (drop (i + batchSize) vs)"
      using batches_Cons [OF batchSize_pos ne] dd by simp
    have empty: "batches batchSize (drop (i + batchSize) vs) = [] \<longleftrightarrow>
                   \<not> i + batchSize < length schemas"
      using len by (auto simp: batches_eq_Nil [OF batchSize_pos])
    have count: "u' + (length schemas - (i + batchSize)) = u + (length schemas - i)"
      using True by (simp add: u'_def min_def)
    from ih4 obtain pre where pre: "fst rest = pre @ [LogAllUploaded (u + (length schemas - i))]"
      unfolding count by blast
    have c1: "snd (upload_loop invoke upsert schemas i u) = Inr JUndefined"
      by (simp add: step ih1)
    have c2: "upserted (fst (upload_loop invoke upsert schemas i u)) =
                batches batchSize (drop i vs)"
      by (simp add: step ih2 bs)
    have c3: "filter is_store_event (fst (upload_loop invoke upsert schemas i u)) =
                intersperse (Sleep 1000) (map Upsert (batches batchSize (drop i vs)))"
    proof (cases "i + batchSize < length schemas")
      case True
      with empty have "batches batchSize (drop (i + batchSize) vs) \<noteq> []" by simp
      with True show ?thesis by (simp add: step ih3 bs intersperse_Cons)
    next
      case False
      with empty have e: "batches batchSize (drop (i + batchSize) vs) = []" by simp
      have "filter is_store_event (fst rest) = []" using ih3 by (simp add: e)
      with False show ?thesis by (simp add: step bs e)
    qed
    have c4: "\<exists>pre. fst (upload_loop invoke upsert schemas i u) =
                pre @ [LogAllUploaded (u + (length schemas - i))]"
      by (simp add: step pre)
    from c1 c2 c3 c4 show ?thesis by blast
  qed
qed

lemma upserted_append: "upserted (xs @ ys) = upserted xs @ upserted ys"
  by (induction xs rule: upserted.induct) simp_all

lemma make_vector_fails: "invoke (createSchemaText s) = Inl e \<Longrightarrow> make_vector invoke s = Inl e"
  by (simp add: make_vector_def generateEmbedding_def Let_def)

lemma upload_loop_embedding_failure:
  assumes k: "k < length schemas" and bad: "invoke (createSchemaText (schemas ! k)) = Inl err"
  shows "i \<le> k \<Longrightarrow>
         \<exists>e n. snd (upload_loop invoke upsert schemas i u) = Inl e \<and>
               batchSize dvd n \<and> i + n \<le> k \<and>
               map_result (make_vector invoke) (take n (drop i schemas)) =
                 Inr (concat (upserted (fst (upload_loop invoke upsert schemas i u)))) \<and>
               ((\<forall>b. upsert b = None) \<longrightarrow> (\<exists>s\<in>set schemas. invoke (createSchemaText s) = Inl e))"
proof (induction "length schemas - i" arbitrary: i u rule: less_induct)
  case less
  let ?b = "take batchSize (drop i schemas)"
  from less.prems k have i: "i < length schemas" by simp
  show ?case
  proof (cases "map_result (make_vector invoke) ?b")
    case (Inl e)
    then obtain x where "x \<in> set ?b" "make_vector invoke x = Inl e"
      by (blast dest: map_result_Inl_some)
    then have "x \<in> set schemas" "invoke (createSchemaText x) = Inl e"
      by (auto dest: in_set_takeD in_set_dropD make_vector_Inl)
    then have "\<exists>s\<in>set schemas. invoke (createSchemaText s) = Inl e" by blast
    moreover have "upload_loop invoke upsert schemas i u = ([], Inl e)"
      using i Inl by (rule upload_loop_embed_fails)
    ultimately show ?thesis
      using less.prems by (intro exI [of _ e] exI [of _ 0]) simp
  next
    case (Inr vectors)
    have far: "i + batchSize \<le> k"
    proof (rule ccontr)
      assume "\<not> i + batchSize \<le> k"
      with less.prems k have kb: "k - i < length schemas - i" "k - i < batchSize"
        by arith+
      with less.prems have "?b ! (k - i) = schemas ! k" "k - i < length ?b"
        by simp_all
      then have "schemas ! k \<in> set ?b" by (metis nth_mem)
      with Inr obtain y where "make_vector invoke (schemas ! k) = Inr y"
        by (blast dest: map_result_Inr_all)
      moreover have "make_vector invoke (schemas ! k) = Inl err"
        using bad by (rule make_vector_fails)
      ultimately show False by simp
    qed
    show ?thesis
    proof (cases "upsert vectors")
      case (Some e)
      have "upload_loop invoke upsert schemas i u = ([], Inl e)"
        using i Inr Some by (rule upload_loop_upsert_fails)
      with Some less.prems show ?thesis
        by (intro exI [of _ e] exI [of _ 0]) auto
    next
      case None
      define u' where "u' = u + length ?b"
      define rest where "rest = upload_loop invoke upsert schemas (i + batchSize) u'"
      have step: "upload_loop invoke upsert schemas i u =
          ([Upsert vectors, LogUploaded u' (length schemas)] @
           (if i + batchSize < length schemas then [Sleep 1000] else []) @ fst rest,
           snd rest)"
        using i Inr None by (simp add: upload_loop_step u'_def rest_def)
      have "length schemas - (i + batchSize) < length schemas - i"
        using i batchSize_pos by simp
      from less.hyps [OF this far, of u'] obtain e n where
        e: "snd rest = Inl e" and dvd: "batchSize dvd n" and le: "i + batchSize + n \<le> k"
        and pre: "map_result (make_vector invoke) (take n (drop (i + batchSize) schemas)) =
                    Inr (concat (upserted (fst rest)))"
        and src: "(\<forall>b. upsert b = None) \<longrightarrow> (\<exists>s\<in>set schemas. invoke (createSchemaText s) = Inl e)"
        unfolding rest_def by blast
      have split: "take (batchSize + n) (drop i schemas) =
                     ?b @ take n (drop (i + batchSize) schemas)"
        by (simp add: take_add add.commute)
      have ups: "upserted (fst (upload_loop invoke upsert schemas i u)) =
                   vectors # upserted (fst rest)"
        by (simp add: step upserted_append)
      have "map_result (make_vector invoke) (take (batchSize + n) (drop i schemas)) =
              Inr (concat (upserted (fst (upload_loop invoke upsert schemas i u))))"
        unfolding split ups by (simp add: map_result_append Inr pre)
      moreover have "snd (upload_loop invoke upsert schemas i u) = Inl e"
        by (simp add: step e)
      moreover have "batchSize dvd batchSize + n" using dvd by simp
      moreover have "i + (batchSize + n) \<le> k" using le by simp
      ultimately show ?thesis
        using src by (intro exI [of _ e] exI [of _ "batchSize + n"]) blast
    qed
  qed
qed

lemma constant_embedding_vectors:
  "map_result (make_vector constant_embedding) schemas =
     Inr (map (\<lambda>s. \<lparr> vec_id = table_name s, vec_values = 0,
                      vec_metadata = \<lparr> md_table_name = table_name s,
                                       md_description = js_or (description s) (JStr []),
                                       md_columns = columns s, md_schema = s \<rparr> \<rparr>) schemas)"
  by (intro map_result_ok)
     (simp add: make_vector_def generateEmbedding_def constant_embedding_def)

text \<open>
  C7. When every embedding request and every bulk write succeeds, the bulk writes of a
  run are the records of the catalog cut into consecutive pieces of 100 in catalog order
  (the \<open>k\<close>-th write holds the records \<open>100 k\<close> to \<open>100 k + 99\<close>, the last write what
  remains), so every table is written once, under its \<open>table_name\<close> as id; and the
  writes and pauses of the run are these writes with one pause of 1000 ms between
  each two of them, none after the last.
\<close>

theorem index_builder_batches:
  assumes "map_result (make_vector invoke) schemas = Inr vs" and "\<forall>b. upsert b = None"
  shows "snd (uploadToPinecone invoke upsert schemas) = Inr JUndefined \<and>
         length (upserted (fst (uploadToPinecone invoke upsert schemas))) =
           (length schemas + 99) div 100 \<and>
         (\<forall>k<length (upserted (fst (uploadToPinecone invoke upsert schemas))).
            upserted (fst (uploadToPinecone invoke upsert schemas)) ! k =
              take 100 (drop (100 * k) vs)) \<and>
         concat (upserted (fst (uploadToPinecone invoke upsert schemas))) = vs \<and>
         map vec_id vs = map table_name schemas \<and>
         filter is_store_event (fst (uploadToPinecone invoke upsert schemas)) =
           intersperse (Sleep 1000)
             (map Upsert (upserted (fst (uploadToPinecone invoke upsert schemas))))"
proof -
  let ?evs = "fst (uploadToPinecone invoke upsert schemas)"
  have len: "length vs = length schemas"
    using assms(1) by (rule map_result_Inr_length)
  from upload_loop_success [OF assms, of 0 0]
  have r: "snd (uploadToPinecone invoke upsert schemas) = Inr JUndefined"
    and u: "upserted ?evs = batches batchSize vs"
    and f: "filter is_store_event ?evs = intersperse (Sleep 1000) (map Upsert (batches batchSize vs))"
    by (simp_all add: uploadToPinecone_def)
  have n: "length (batches batchSize vs) = (length schemas + 99) div 100"
    using length_batches [OF batchSize_pos, of vs] len by (simp add: batchSize_def)
  have k: "\<forall>k<length (batches batchSize vs). batches batchSize vs ! k = take 100 (drop (100 * k) vs)"
    using nth_batches [OF batchSize_pos, of _ vs] by (simp add: batchSize_def)
  have c: "concat (batches batchSize vs) = vs"
    using batchSize_pos by (rule concat_batches)
  have i: "map vec_id vs = map table_name schemas"
    using assms(1) by (rule make_vector_ids)
  show ?thesis
    unfolding u f using r n k c i by simp
qed

theorem index_builder_batches_witness:
  "length (upserted (fst (uploadToPinecone constant_embedding accepting_store
                            (replicate 250 example_schema)))) = 3 \<and>
   map length (upserted (fst (uploadToPinecone constant_embedding accepting_store
                                (replicate 250 example_schema)))) = [100, 100, 50] \<and>
   length (filter is_store_event (fst (uploadToPinecone constant_embedding accepting_store
                                         (replicate 250 example_schema)))) = 5"
proof -
  let ?evs = "fst (uploadToPinecone constant_embedding accepting_store (replicate 250 example_schema))"
  have acc: "\<forall>b. accepting_store b = None"
    by (simp add: accepting_store_def)
  note all = index_builder_batches [OF constant_embedding_vectors acc,
      of "replicate 250 example_schema"]
  from all have n: "length (upserted ?evs) = 3"
    by simp
  from all have f: "filter is_store_event ?evs =
      intersperse (Sleep 1000) (map Upsert (upserted ?evs))"
    by blast
  from all have k: "k < length (upserted ?evs) \<Longrightarrow> length (upserted ?evs ! k) =
      length (take 100 (drop (100 * k)
        (map (\<lambda>s. \<lparr> vec_id = table_name s, vec_values = (0::nat),
                      vec_metadata = \<lparr> md_table_name = table_name s,
                                       md_description = js_or (description s) (JStr []),
                                       md_columns = columns s, md_schema = s \<rparr> \<rparr>)
           (replicate 250 example_schema))))" for k
    by simp
  from n obtain a b c where abc: "upserted ?evs = [a, b, c]"
    by (auto simp: length_Suc_conv numeral_3_eq_3)
  from k [of 0] k [of 1] k [of 2] abc
  have "length a = 100" "length b = 100" "length c = 50"
    by simp_all
  with abc f show ?thesis by simp
qed

text \<open>
  C5 (as the code has it). \<open>uploadToPinecone\<close> has no return value: its promise
  resolves to \<open>undefined\<close>. When every embedding request and every bulk write succeeds,
  the counter it prints last is the number of schemas of the catalog, which is the
  number of records written.
\<close>

theorem upload_counts_but_returns_nothing:
  assumes "map_result (make_vector invoke) schemas = Inr vs" and "\<forall>b. upsert b = None"
  shows "snd (uploadToPinecone invoke upsert schemas) = Inr JUndefined \<and>
         (\<exists>pre. fst (uploadToPinecone invoke upsert schemas) =
                  pre @ [LogAllUploaded (length schemas)]) \<and>
         length (concat (upserted (fst (uploadToPinecone invoke upsert schemas)))) =
           length schemas"
proof -
  from upload_loop_success [OF assms, of 0 0]
  have "snd (uploadToPinecone invoke upsert schemas) = Inr JUndefined"
    and "upserted (fst (uploadToPinecone invoke upsert schemas)) = batches batchSize vs"
    and "\<exists>pre. fst (uploadToPinecone invoke upsert schemas) =
                  pre @ [LogAllUploaded (length schemas)]"
    by (simp_all add: uploadToPinecone_def)
  moreover have "length (concat (batches batchSize vs)) = length schemas"
    using concat_batches [OF batchSize_pos, of vs] map_result_Inr_length [OF assms(1)] by simp
  ultimately show ?thesis by simp
qed

theorem upload_counts_but_returns_nothing_witness:
  "snd (uploadToPinecone constant_embedding accepting_store (replicate 3 example_schema)) =
     Inr JUndefined \<and>
   length (concat (upserted (fst (uploadToPinecone constant_embedding accepting_store
                                    (replicate 3 example_schema))))) = 3"
proof -
  have acc: "\<forall>b. accepting_store b = None"
    by (simp add: accepting_store_def)
  from upload_counts_but_returns_nothing [OF constant_embedding_vectors acc,
      of "replicate 3 example_schema"]
  show ?thesis by simp
qed

text \<open>On a catalog of one table the run resolves to \<open>undefined\<close>, not to the count 1.\<close>

theorem upload_returns_undefined:
  "snd (uploadToPinecone constant_embedding accepting_store [example_schema]) = Inr JUndefined \<and>
   snd (uploadToPinecone constant_embedding accepting_store [example_schema]) \<noteq>
     Inr (JNum (int (length [example_schema])))"
proof -
  have acc: "\<forall>b. accepting_store b = None"
    by (simp add: accepting_store_def)
  from upload_loop_success [OF constant_embedding_vectors acc, of "[example_schema]" 0 0]
  show ?thesis by (simp add: uploadToPinecone_def)
qed

text \<open>
  C6. When the embedding request for some table of the catalog fails, the run ends with
  an exception. What it has written by then is the records of a whole number of
  batches, all lying before the batch of that table, without a gap: neither that batch
  nor a later one is written. When no bulk write fails, the exception is the failure of
  an embedding request.
\<close>

theorem embedding_failure_aborts_run:
  assumes "k < length schemas" and "invoke (createSchemaText (schemas ! k)) = Inl err"
  shows "\<exists>e n. snd (uploadToPinecone invoke upsert schemas) = Inl e \<and>
               n mod 100 = 0 \<and> n \<le> 100 * (k div 100) \<and>
               map_result (make_vector invoke) (take n schemas) =
                 Inr (concat (upserted (fst (uploadToPinecone invoke upsert schemas)))) \<and>
               ((\<forall>b. upsert b = None) \<longrightarrow>
                  (\<exists>s\<in>set schemas. invoke (createSchemaText s) = Inl e))"
proof -
  from upload_loop_embedding_failure [where invoke = invoke and schemas = schemas and k = k
      and i = 0 and u = 0 and upsert = upsert, OF assms]
  obtain e n where e: "snd (uploadToPinecone invoke upsert schemas) = Inl e"
    and d: "batchSize dvd n" and le: "n \<le> k"
    and w: "map_result (make_vector invoke) (take n schemas) =
              Inr (concat (upserted (fst (uploadToPinecone invoke upsert schemas))))"
    and s: "(\<forall>b. upsert b = None) \<longrightarrow> (\<exists>s\<in>set schemas. invoke (createSchemaText s) = Inl e)"
    by (auto simp: uploadToPinecone_def)
  from d obtain q where q: "n = 100 * q"
    by (auto simp: batchSize_def)
  with le have "q \<le> k div 100" by simp
  with q have "n mod 100 = 0" "n \<le> 100 * (k div 100)" by simp_all
  with e w s show ?thesis
    by (intro exI [of _ e] exI [of _ n]) simp
qed

theorem embedding_failure_aborts_run_witness:
  "snd (uploadToPinecone failing_embedding accepting_store failing_catalog) = Inl BedrockError \<and>
   length (concat (upserted (fst (uploadToPinecone failing_embedding accepting_store
                                    failing_catalog)))) \<le> 100"
proof -
  have k: "120 < length failing_catalog"
    by (simp add: failing_catalog_def)
  have "failing_catalog ! 120 = example_schema"
    by (simp add: failing_catalog_def nth_append)
  then have bad: "failing_embedding (createSchemaText (failing_catalog ! 120)) = Inl BedrockError"
    by (simp add: failing_embedding_def)
  from embedding_failure_aborts_run [where invoke = failing_embedding
      and schemas = failing_catalog and k = 120 and upsert = accepting_store, OF k bad]
  obtain e n where e: "snd (uploadToPinecone failing_embedding accepting_store failing_catalog) = Inl e"
    and n: "n \<le> 100 * (120 div 100)"
    and w: "map_result (make_vector failing_embedding) (take n failing_catalog) =
              Inr (concat (upserted (fst (uploadToPinecone failing_embedding accepting_store
                                            failing_catalog))))"
    and s: "(\<forall>b. accepting_store b = None) \<longrightarrow>
              (\<exists>s\<in>set failing_catalog. failing_embedding (createSchemaText s) = Inl e)"
    by blast
  from s have "e = BedrockError"
    by (auto simp: accepting_store_def failing_embedding_def split: if_splits)
  moreover from map_result_Inr_length [OF w] n
  have "length (concat (upserted (fst (uploadToPinecone failing_embedding accepting_store
                                         failing_catalog)))) \<le> 100"
    by simp
  ultimately show ?thesis using e by simp
qed

text \<open>
  C8 (as the code has it). When listing the indexes succeeds: an index of the name that
  is listed is returned with the service unchanged; otherwise one index is created,
  with the name \<open>tuva-schemas\<close>, dimension 1536 and the cosine metric, and the handle is
  returned after a pause of exactly 10000 ms, whatever the state of the new index; a
  failing creation is rethrown. \<open>setupTuva\<close> issues no bulk write unless provisioning
  has returned a handle.
\<close>

theorem initializeIndex_creates_once_then_pauses:
  assumes "listIndexes_result p = None"
  shows "(index_listed p ''tuva-schemas'' \<longrightarrow> initializeIndex p = (p, Inr ''tuva-schemas'')) \<and>
         (\<not> index_listed p ''tuva-schemas'' \<and> createIndex_result p = None \<longrightarrow>
            initializeIndex p =
              (p \<lparr> indexes :=
                     Some ((case indexes p of None \<Rightarrow> [] | Some l \<Rightarrow> l) @
                           [\<lparr> idx_name = ''tuva-schemas'', idx_dimension = 1536,
                              idx_metric = ''cosine'', idx_cloud = ''aws'',
                              idx_region = ''us-east-1'',
                              ready_at = now p + provisioning_ms p \<rparr>]),
                   now := now p + 10000 \<rparr>,
               Inr ''tuva-schemas'')) \<and>
         (\<forall>e. \<not> index_listed p ''tuva-schemas'' \<and> createIndex_result p = Some e \<longrightarrow>
            initializeIndex p = (p, Inl e)) \<and>
         (\<forall>r invoke upsert e.
            snd (initializeIndex p) = Inl e \<longrightarrow>
            upserted (index_events (setupTuva r p invoke upsert)) = [])"
proof (intro conjI allI impI)
  assume "index_listed p ''tuva-schemas''"
  with assms show "initializeIndex p = (p, Inr ''tuva-schemas'')"
    unfolding initializeIndex_def index_listed_def PINECONE_INDEX_NAME_def
    by (simp split: option.splits)
next
  assume "\<not> index_listed p ''tuva-schemas'' \<and> createIndex_result p = None"
  with assms show "initializeIndex p =
      (p \<lparr> indexes :=
             Some ((case indexes p of None \<Rightarrow> [] | Some l \<Rightarrow> l) @
                   [\<lparr> idx_name = ''tuva-schemas'', idx_dimension = 1536,
                      idx_metric = ''cosine'', idx_cloud = ''aws'',
                      idx_region = ''us-east-1'',
                      ready_at = now p + provisioning_ms p \<rparr>]),
           now := now p + 10000 \<rparr>,
       Inr ''tuva-schemas'')"
    unfolding initializeIndex_def index_listed_def PINECONE_INDEX_NAME_def
      EMBEDDING_DIMENSIONS_def Let_def
    by (simp split: option.splits)
next
  fix e
  assume "\<not> index_listed p ''tuva-schemas'' \<and> createIndex_result p = Some e"
  with assms show "initializeIndex p = (p, Inl e)"
    unfolding initializeIndex_def index_listed_def PINECONE_INDEX_NAME_def
    by (simp split: option.splits)
next
  fix r :: repo and invoke :: "string \<Rightarrow> error + 'a"
    and upsert :: "string \<Rightarrow> 'a vector list \<Rightarrow> error option" and e
  assume "snd (initializeIndex p) = Inl e"
  then show "upserted (index_events (setupTuva r p invoke upsert)) = []"
    by (cases "initializeIndex p")
       (auto simp: setupTuva_def split: prod.splits sum.splits option.splits)
qed

theorem initializeIndex_creates_once_then_pauses_witness:
  "initializeIndex provisioned_service = (provisioned_service, Inr ''tuva-schemas'') \<and>
   initializeIndex fresh_service =
     (fresh_service
        \<lparr> indexes := Some [\<lparr> idx_name = ''tuva-schemas'', idx_dimension = 1536,
                             idx_metric = ''cosine'', idx_cloud = ''aws'',
                             idx_region = ''us-east-1'', ready_at = 20000 \<rparr>],
          now := 10000 \<rparr>,
      Inr ''tuva-schemas'')"
proof -
  have a: "listIndexes_result provisioned_service = None"
    and b: "index_listed provisioned_service ''tuva-schemas''"
    by (simp_all add: provisioned_service_def index_listed_def)
  have c: "listIndexes_result fresh_service = None"
    and d: "\<not> index_listed fresh_service ''tuva-schemas'' \<and> createIndex_result fresh_service = None"
    by (simp_all add: fresh_service_def index_listed_def)
  from initializeIndex_creates_once_then_pauses [OF a] b
  have "initializeIndex provisioned_service = (provisioned_service, Inr ''tuva-schemas'')"
    by blast
  moreover from initializeIndex_creates_once_then_pauses [OF c] d
  have "initializeIndex fresh_service =
     (fresh_service
        \<lparr> indexes := Some ((case indexes fresh_service of None \<Rightarrow> [] | Some l \<Rightarrow> l) @
                             [\<lparr> idx_name = ''tuva-schemas'', idx_dimension = 1536,
                                idx_metric = ''cosine'', idx_cloud = ''aws'',
                                idx_region = ''us-east-1'',
                                ready_at = now fresh_service + provisioning_ms fresh_service \<rparr>]),
          now := now fresh_service + 10000 \<rparr>,
      Inr ''tuva-schemas'')"
    by blast
  ultimately show ?thesis
    by (simp add: fresh_service_def)
qed

text \<open>
  With a service that needs 20 s to provision a new index, the handle is returned after
  10 s, while the index does not yet answer.
\<close>

theorem handle_returned_before_index_is_ready:
  "snd (initializeIndex fresh_service) = Inr ''tuva-schemas'' \<and>
   \<not> queryable (fst (initializeIndex fresh_service)) ''tuva-schemas''"
  unfolding initializeIndex_def queryable_def PINECONE_INDEX_NAME_def
    EMBEDDING_DIMENSIONS_def Let_def
  by (simp add: fresh_service_def)

end
